theory Spec2Isabelle
  imports Main "HOL-Library.Sublist" "HOL-Library.List_Lexorder"
begin

section \<open>Text\<close>

text \<open>
  A Python \<open>str\<close> is a sequence of Unicode code points.  A code point is modelled as a
  natural number and a string as the list of its code points, so that the characters beyond
  Latin-1 that the regular expression class \<open>\s\<close> knows are ordinary values.  The function
  \<open>u\<close> reads an ASCII literal of the source as such a list.
\<close>

type_synonym str = "nat list"

definition u :: "string \<Rightarrow> str" where
  "u s = map of_char s"

text \<open>
  \<open>str.replace(old, new)\<close>: every non-overlapping occurrence of \<open>old\<close>, found from the left,
  is replaced.  With an empty \<open>old\<close> Python inserts \<open>new\<close> before every character and at the end.
\<close>

fun replace_from :: "str \<Rightarrow> str \<Rightarrow> str \<Rightarrow> str" where
  "replace_from old new [] = []"
| "replace_from old new (c # cs) =
     (if prefix old (c # cs) then new @ replace_from old new (drop (length old - 1) cs)
      else c # replace_from old new cs)"

definition str_replace :: "str \<Rightarrow> str \<Rightarrow> str \<Rightarrow> str" where
  "str_replace old new s =
     (if old = [] then new @ concat (map (\<lambda>c. c # new) s) else replace_from old new s)"

text \<open>\<open>x in s\<close> on strings is the substring test.\<close>

definition contains :: "str \<Rightarrow> str \<Rightarrow> bool" where
  "contains s x = sublist x s"

section \<open>Configuration constants\<close>

text \<open>
  The replacement table as the interpreter reads it from the source file.  The two lines
  commented as curly quotes hold three straight double quotes each, so they open and close
  one triple-quoted string: the table has ten rules, and the old string of the fifth is the
  source text between the two triple quotes.
\<close>

definition REPLACEMENTS :: "(str \<times> str) list" where
  "REPLACEMENTS =
    [(u '':'', u ''-''),
     (u ''|'', u ''-''),
     (u ''/'', u ''-''),
     (u ''?'', []),
     (u '', '' @ [34, 39, 34] @ u ''),      # Curly quote to apostrophe'' @ [10] @ u ''    ('', [39]),
     ([34], [39]),
     (u ''<'', u ''(''),
     (u ''>'', u '')''),
     (u ''*'', []),
     ([92], u ''-'')]"

text \<open>The character class \<open>[<>:"/\\|?*]\<close> of \<open>INVALID_CHARS\<close>.\<close>

definition INVALID_CHARS :: "nat list" where
  "INVALID_CHARS = [60, 62, 58, 34, 47, 92, 124, 63, 42]"

definition SUPPORTED_EXTENSIONS :: "str list" where
  "SUPPORTED_EXTENSIONS =
     [u ''.m4a'', u ''.mp3'', u ''.flac'', u ''.ogg'', u ''.opus'', u ''.wma'', u ''.aac'',
      u ''.wav'', u ''.aiff'']"

section \<open>Regular expressions of the sanitizer\<close>

text \<open>
  The class \<open>\s\<close> of a \<open>str\<close> pattern: the code points for which \<open>str.isspace\<close> holds.
\<close>

definition is_space :: "nat \<Rightarrow> bool" where
  "is_space c \<longleftrightarrow>
     (9 \<le> c \<and> c \<le> 13) \<or> (28 \<le> c \<and> c \<le> 32) \<or> c = 133 \<or> c = 160 \<or> c = 5760 \<or>
     (8192 \<le> c \<and> c \<le> 8202) \<or> c = 8232 \<or> c = 8233 \<or> c = 8239 \<or> c = 8287 \<or> c = 12288"

definition is_dash :: "nat \<Rightarrow> bool" where
  "is_dash c \<longleftrightarrow> c = 45"

text \<open>\<open>INVALID_CHARS_PATTERN.sub('', s)\<close> deletes every character of the class.\<close>

definition sub_invalid :: "str \<Rightarrow> str" where
  "sub_invalid s = filter (\<lambda>c. c \<notin> set INVALID_CHARS) s"

text \<open>\<open>re.sub(r'\s+', ' ', s)\<close>: each maximal run of whitespace becomes one space.\<close>

function sub_spaces :: "str \<Rightarrow> str" where
  "sub_spaces [] = []"
| "sub_spaces (c # cs) =
     (if is_space c then 32 # sub_spaces (dropWhile is_space cs) else c # sub_spaces cs)"
  by pat_completeness auto
termination
  by (relation "measure length") (auto simp: less_Suc_eq_le length_dropWhile_le)

text \<open>\<open>re.sub(r'-{2,}', '-', s)\<close>: each maximal run of two or more dashes becomes one dash.\<close>

function sub_dashes :: "str \<Rightarrow> str" where
  "sub_dashes [] = []"
| "sub_dashes [c] = [c]"
| "sub_dashes (c # d # cs) =
     (if is_dash c \<and> is_dash d then 45 # sub_dashes (dropWhile is_dash cs)
      else c # sub_dashes (d # cs))"
  by pat_completeness auto
termination
  by (relation "measure length")
     (auto simp: less_Suc_eq_le intro: le_trans [OF length_dropWhile_le])

text \<open>
  \<open>re.sub(r'\s*-\s*-\s*', ' - ', s)\<close>.  The classes \<open>\s\<close> and \<open>-\<close> are disjoint, so a
  greedy \<open>\s*\<close> that gives characters back never finds a dash it did not find before:
  the pattern matches at a position exactly when the string there is whitespace, a dash,
  whitespace, a dash, and the match takes all the whitespace that follows.
  \<open>match_dash_pair\<close> returns the rest of the string after the match.  The matches are taken from the left
  and do not overlap.
\<close>

fun expect_dash :: "str \<Rightarrow> str option" where
  "expect_dash [] = None"
| "expect_dash (c # cs) = (if is_dash c then Some cs else None)"

definition match_dash_pair :: "str \<Rightarrow> str option" where
  "match_dash_pair s =
     (case expect_dash (dropWhile is_space s) of
        None \<Rightarrow> None
      | Some r1 \<Rightarrow>
          (case expect_dash (dropWhile is_space r1) of
             None \<Rightarrow> None
           | Some r2 \<Rightarrow> Some (dropWhile is_space r2)))"

lemma expect_dash_length: "expect_dash s = Some r \<Longrightarrow> length r < length s"
  by (cases s) (auto split: if_splits)

lemma match_dash_pair_length: "match_dash_pair s = Some r \<Longrightarrow> length r < length s"
proof -
  assume m: "match_dash_pair s = Some r"
  then obtain r1 r2 where a: "expect_dash (dropWhile is_space s) = Some r1"
    and b: "expect_dash (dropWhile is_space r1) = Some r2"
    and c: "r = dropWhile is_space r2"
    by (auto simp: match_dash_pair_def split: option.splits)
  have "length r \<le> length r2" using c by (simp add: length_dropWhile_le)
  also have "\<dots> < length (dropWhile is_space r1)" using b by (rule expect_dash_length)
  also have "\<dots> \<le> length r1" by (simp add: length_dropWhile_le)
  also have "\<dots> < length (dropWhile is_space s)" using a by (rule expect_dash_length)
  also have "\<dots> \<le> length s" by (simp add: length_dropWhile_le)
  finally show ?thesis .
qed

function sub_dash_pair :: "str \<Rightarrow> str" where
  "sub_dash_pair [] = []"
| "sub_dash_pair (c # cs) =
     (case match_dash_pair (c # cs) of
        Some r \<Rightarrow> [32, 45, 32] @ sub_dash_pair r
      | None \<Rightarrow> c # sub_dash_pair cs)"
  by pat_completeness auto
termination
  by (relation "measure length") (auto dest: match_dash_pair_length)

text \<open>\<open>s.strip(chars)\<close> removes the characters of \<open>chars\<close> from both ends.\<close>

definition strip :: "nat list \<Rightarrow> str \<Rightarrow> str" where
  "strip chars s =
     rev (dropWhile (\<lambda>c. c \<in> set chars) (rev (dropWhile (\<lambda>c. c \<in> set chars) s)))"

section \<open>The sanitizer\<close>

text \<open>The loop over the replacement rules, in their order.\<close>

fun apply_replacements :: "(str \<times> str) list \<Rightarrow> str \<Rightarrow> str" where
  "apply_replacements [] result = result"
| "apply_replacements ((old, new) # rules) result =
     apply_replacements rules (str_replace old new result)"

definition sanitize :: "str option \<Rightarrow> str option \<times> bool" where
  "sanitize txt_in =
     (case txt_in of
        None \<Rightarrow> (None, False)
      | Some original \<Rightarrow>
          (let result = apply_replacements REPLACEMENTS original;
               result = sub_invalid result;
               result = sub_spaces result;
               result = sub_dashes result;
               result = sub_dash_pair result;
               result = strip (u '' .-'') result
           in (Some result, result \<noteq> original)))"

text \<open>
  The premise of the no-op guarantee in the words of the specification: the string holds a
  character of the source of a replacement rule, or a platform-invalid character.
\<close>

definition has_rule_character :: "str \<Rightarrow> bool" where
  "has_rule_character s \<longleftrightarrow>
     list_ex (\<lambda>c. c \<in> set (concat (map fst REPLACEMENTS)) \<or> c \<in> set INVALID_CHARS) s"

section \<open>Python values and builtins\<close>

text \<open>The truth value of an optional string: \<open>None\<close> and the empty string are false.\<close>

fun truthy :: "str option \<Rightarrow> bool" where
  "truthy None = False"
| "truthy (Some s) = (s \<noteq> [])"

text \<open>\<open>x or ''\<close>\<close>

fun or_empty :: "str option \<Rightarrow> str" where
  "or_empty None = []"
| "or_empty (Some s) = s"

text \<open>\<open>sep.join(xs)\<close>\<close>

fun join :: "str \<Rightarrow> str list \<Rightarrow> str" where
  "join sep [] = []"
| "join sep [x] = x"
| "join sep (x # y # ys) = x @ sep @ join sep (y # ys)"

text \<open>
  \<open>str.lower\<close> and \<open>str.upper\<close> on the ASCII letters.  The program compares a lowered
  string only with \<open>.m4a\<close>, \<open>.mp4\<close> and the supported extensions, and upper-cases only the
  supported extensions.  No code point outside ASCII lowers to one of the characters of
  these strings, so the comparisons have the value they have in Python.
\<close>

definition lower :: "str \<Rightarrow> str" where
  "lower s = map (\<lambda>c. if 65 \<le> c \<and> c \<le> 90 then c + 32 else c) s"

definition upper :: "str \<Rightarrow> str" where
  "upper s = map (\<lambda>c. if 97 \<le> c \<and> c \<le> 122 then c - 32 else c) s"

definition endswith :: "str \<Rightarrow> str \<Rightarrow> bool" where
  "endswith s x = suffix x s"

text \<open>\<open>str(n)\<close> of an integer: its decimal digits, with a minus sign when negative.\<close>

function digits :: "nat \<Rightarrow> str" where
  "digits n = (if n < 10 then [48 + n] else digits (n div 10) @ [48 + n mod 10])"
  by pat_completeness auto
termination
  by (relation "measure id") auto

declare digits.simps [simp del]

definition str_of_int :: "int \<Rightarrow> str" where
  "str_of_int i = (if i < 0 then 45 # digits (nat (- i)) else digits (nat i))"

text \<open>
  The format \<open>{n:02d}\<close>: the decimal digits padded with zeros to two characters, the sign
  counting as one of them.
\<close>

definition format_02d :: "int \<Rightarrow> str" where
  "format_02d i =
     (if i < 0 then 45 # digits (nat (- i))
      else if i < 10 then 48 # digits (nat i)
      else digits (nat i))"

text \<open>
  \<open>int(s)\<close> in base ten: whitespace around the number is dropped, a sign may lead, and the
  digits may be grouped by single underscores.  The decimal value of a code point comes from
  the Unicode database and is the parameter \<open>dec\<close>; \<open>ascii_decimal\<close> is its ASCII part.
  The result \<open>None\<close> stands for \<open>ValueError\<close>.
\<close>

fun parse_digits :: "(nat \<Rightarrow> nat option) \<Rightarrow> nat \<Rightarrow> bool \<Rightarrow> str \<Rightarrow> nat option" where
  "parse_digits dec acc after_digit [] = (if after_digit then Some acc else None)"
| "parse_digits dec acc after_digit (c # cs) =
     (if c = 95 then (if after_digit then parse_digits dec acc False cs else None)
      else (case dec c of
              None \<Rightarrow> None
            | Some d \<Rightarrow> parse_digits dec (10 * acc + d) True cs))"

definition py_int :: "(nat \<Rightarrow> nat option) \<Rightarrow> str \<Rightarrow> int option" where
  "py_int dec s =
     (case rev (dropWhile is_space (rev (dropWhile is_space s))) of
        [] \<Rightarrow> None
      | c # cs \<Rightarrow>
          if c = 45 then map_option (\<lambda>n. - int n) (parse_digits dec 0 False cs)
          else if c = 43 then map_option int (parse_digits dec 0 False cs)
          else map_option int (parse_digits dec 0 False (c # cs)))"

definition ascii_decimal :: "nat \<Rightarrow> nat option" where
  "ascii_decimal c = (if 48 \<le> c \<and> c \<le> 57 then Some (c - 48) else None)"

datatype py_error =
  KeyError | IndexError | ValueError | TypeError | SystemExit
  | FileNotFoundError | FileExistsError | NotADirectoryError | IsADirectoryError
  | SameFileError | OSError | UnicodeEncodeError | FormatNotModelled

text \<open>
  \<open>fmt.format(**kwargs)\<close> for the templates of the configuration: literal text, the escapes
  \<open>{{\<close> and \<open>}}\<close>, and replacement fields \<open>{name}\<close>.  A field that is not a keyword of the
  call raises \<open>KeyError\<close>, an empty or numeric one \<open>IndexError\<close> (the call has no positional
  argument), a brace without its partner \<open>ValueError\<close>.  Conversions, format
  specifications, attributes and indices inside a field are outside this model and are
  reported as \<open>FormatNotModelled\<close>.
\<close>

definition format_field :: "(str \<times> str) list \<Rightarrow> str \<Rightarrow> py_error + str" where
  "format_field kwargs name =
     (if 123 \<in> set name then Inl ValueError
      else if (\<exists>c \<in> set name. c \<in> set (u ''!:.[]'')) then Inl FormatNotModelled
      else if (\<forall>c \<in> set name. 48 \<le> c \<and> c \<le> 57) then Inl IndexError
      else (case map_of kwargs name of None \<Rightarrow> Inl KeyError | Some v \<Rightarrow> Inr v))"

lemma length_tl_dropWhile_le: "length (dropWhile P xs) - Suc 0 \<le> length xs"
  using length_dropWhile_le [of P xs] by simp

function py_format :: "(str \<times> str) list \<Rightarrow> str \<Rightarrow> py_error + str" where
  "py_format kwargs [] = Inr []"
| "py_format kwargs (c # cs) =
     (if c = 123 then
        (if cs \<noteq> [] \<and> hd cs = 123 then
           (case py_format kwargs (tl cs) of Inl e \<Rightarrow> Inl e | Inr r \<Rightarrow> Inr (123 # r))
         else if 125 \<notin> set cs then Inl ValueError
         else
           (case format_field kwargs (takeWhile (\<lambda>x. x \<noteq> 125) cs) of
              Inl e \<Rightarrow> Inl e
            | Inr v \<Rightarrow>
                (case py_format kwargs (tl (dropWhile (\<lambda>x. x \<noteq> 125) cs)) of
                   Inl e \<Rightarrow> Inl e
                 | Inr r \<Rightarrow> Inr (v @ r))))
      else if c = 125 then
        (if cs \<noteq> [] \<and> hd cs = 125 then
           (case py_format kwargs (tl cs) of Inl e \<Rightarrow> Inl e | Inr r \<Rightarrow> Inr (125 # r))
         else Inl ValueError)
      else (case py_format kwargs cs of Inl e \<Rightarrow> Inl e | Inr r \<Rightarrow> Inr (c # r)))"
  by pat_completeness auto
termination
  by (relation "measure (\<lambda>(kwargs, s). length s)")
     (auto simp: less_Suc_eq_le length_tl_dropWhile_le)

section \<open>Configuration and runtime\<close>

record config =
  FILENAME_FORMAT :: str
  FILENAME_FORMAT_NO_TRACK :: str

definition default_config :: config where
  "default_config =
     \<lparr>FILENAME_FORMAT = u ''{title} _ {artist}'',
      FILENAME_FORMAT_NO_TRACK = u ''{title} _ {artist}''\<rparr>"

datatype field = Artist | Album | Track_number | Title

fun field_key :: "field \<Rightarrow> str" where
  "field_key Artist = u ''artist''"
| "field_key Album = u ''album''"
| "field_key Track_number = u ''track_number''"
| "field_key Title = u ''title''"

text \<open>A path is the list of its components below the filesystem root.\<close>

type_synonym path = "str list"

datatype 'a call = Raises | Returns 'a

record mp4_tags =
  text_tags :: "str \<Rightarrow> str list option"
  trkn :: "(int \<times> int) list option"

text \<open>
  What the program takes from outside its own code: the tag library (\<open>MutagenFile\<close> with
  \<open>easy=True\<close> returns \<open>None\<close> or a mapping from tag names to lists of strings, \<open>MP4\<close> an
  object whose \<open>tags\<close> may be \<open>None\<close>; both may raise), the decimal values of the Unicode
  database, the order in which a set of field names is iterated, and the path flavour of the
  platform: the case folding under which paths are compared, hashed and ordered, and the
  match of a name against a glob pattern.
\<close>

record runtime =
  MutagenFile :: "path \<Rightarrow> (str \<Rightarrow> str list option) option call"
  MP4 :: "path \<Rightarrow> mp4_tags option call"
  decimal :: "nat \<Rightarrow> nat option"
  set_order :: "field list"
  casefold :: "str \<Rightarrow> str"
  fnmatch :: "str \<Rightarrow> str \<Rightarrow> bool"

section \<open>Paths\<close>

text \<open>
  \<open>Path.name\<close>, \<open>Path.suffix\<close> and \<open>Path.stem\<close>: the suffix starts at the last dot of
  the name, unless that dot is the first or the last character of the name.
\<close>

definition path_name :: "path \<Rightarrow> str" where
  "path_name p = (if p = [] then [] else last p)"

definition name_stem :: "str \<Rightarrow> str" where
  "name_stem name =
     (let after = rev (takeWhile (\<lambda>c. c \<noteq> 46) (rev name));
          i = length name - length after - 1
      in if 46 \<in> set name \<and> 0 < i \<and> after \<noteq> [] then take i name else name)"

definition name_suffix :: "str \<Rightarrow> str" where
  "name_suffix name =
     (let after = rev (takeWhile (\<lambda>c. c \<noteq> 46) (rev name));
          i = length name - length after - 1
      in if 46 \<in> set name \<and> 0 < i \<and> after \<noteq> [] then drop i name else [])"

text \<open>\<open>str(path)\<close> of an absolute path, with the separator of POSIX.\<close>

definition path_str :: "path \<Rightarrow> str" where
  "path_str p = (if p = [] then [47] else concat (map (\<lambda>c. 47 # c) p))"

section \<open>Metadata extraction\<close>

record metadata =
  artist :: "str option"
  album :: "str option"
  track_number :: "str option"
  title :: "str option"

fun md_get :: "metadata \<Rightarrow> field \<Rightarrow> str option" where
  "md_get m Artist = artist m"
| "md_get m Album = album m"
| "md_get m Track_number = track_number m"
| "md_get m Title = title m"

fun md_set :: "metadata \<Rightarrow> field \<Rightarrow> str option \<Rightarrow> metadata" where
  "md_set m Artist v = m\<lparr>artist := v\<rparr>"
| "md_set m Album v = m\<lparr>album := v\<rparr>"
| "md_set m Track_number v = m\<lparr>track_number := v\<rparr>"
| "md_set m Title v = m\<lparr>title := v\<rparr>"

text \<open>
  \<open>tags.get(key, [None])[0]\<close>: \<open>None\<close> when the key is absent, the first value when it is
  there, \<open>IndexError\<close> on an empty list of values.
\<close>

fun first_or_none :: "'a list option \<Rightarrow> 'a option call" where
  "first_or_none None = Returns None"
| "first_or_none (Some []) = Raises"
| "first_or_none (Some (x # xs)) = Returns (Some x)"

text \<open>Every exception inside \<open>get_metadata\<close> is caught and turned into \<open>None\<close>.\<close>

definition get_metadata :: "runtime \<Rightarrow> path \<Rightarrow> metadata option" where
  "get_metadata rt filepath =
     (case MutagenFile rt filepath of
        Raises \<Rightarrow> None
      | Returns None \<Rightarrow> None
      | Returns (Some audio) \<Rightarrow>
          if endswith (lower (path_str filepath)) (u ''.m4a'')
             \<or> endswith (lower (path_str filepath)) (u ''.mp4'')
          then
            (case MP4 rt filepath of
               Raises \<Rightarrow> None
             | Returns None \<Rightarrow> None
             | Returns (Some tags) \<Rightarrow>
                 (case first_or_none (text_tags tags [169, 65, 82, 84]) of
                    Raises \<Rightarrow> None
                  | Returns a \<Rightarrow>
                 (case first_or_none (text_tags tags [169, 97, 108, 98]) of
                    Raises \<Rightarrow> None
                  | Returns b \<Rightarrow>
                 (case first_or_none (text_tags tags [169, 110, 97, 109]) of
                    Raises \<Rightarrow> None
                  | Returns t \<Rightarrow>
                 (case first_or_none (trkn tags) of
                    Raises \<Rightarrow> None
                  | Returns track_info \<Rightarrow>
                      Some \<lparr>artist = a, album = b,
                            track_number =
                              (case track_info of
                                 None \<Rightarrow> None
                               | Some (n, of_total) \<Rightarrow> if n \<noteq> 0 then Some (str_of_int n) else None),
                            title = t\<rparr>)))))
          else
            (case first_or_none (audio (u ''artist'')) of
               Raises \<Rightarrow> None
             | Returns a \<Rightarrow>
            (case first_or_none (audio (u ''album'')) of
               Raises \<Rightarrow> None
             | Returns b \<Rightarrow>
            (case first_or_none (audio (u ''title'')) of
               Raises \<Rightarrow> None
             | Returns t \<Rightarrow>
            (case first_or_none (audio (u ''tracknumber'')) of
               Raises \<Rightarrow> None
             | Returns track \<Rightarrow>
                 Some \<lparr>artist = a, album = b,
                       track_number =
                         (if truthy track
                          then Some (takeWhile (\<lambda>c. c \<noteq> 47) (or_empty track))
                          else None),
                       title = t\<rparr>)))))"

section \<open>Filename generation\<close>

text \<open>The three steps of \<open>generate_new_filename\<close>: padding, choice of the template, expansion.\<close>

definition pad_track :: "runtime \<Rightarrow> str option \<Rightarrow> str option" where
  "pad_track rt track =
     (if truthy track then
        (case py_int (decimal rt) (or_empty track) of
           Some n \<Rightarrow> Some (format_02d n)
         | None \<Rightarrow> track)
      else None)"

definition choose_format :: "config \<Rightarrow> str option \<Rightarrow> str" where
  "choose_format cfg track_padded =
     (if truthy track_padded \<and> contains (FILENAME_FORMAT cfg) (u ''{track}'')
      then FILENAME_FORMAT cfg
      else FILENAME_FORMAT_NO_TRACK cfg)"

definition format_kwargs :: "metadata \<Rightarrow> str option \<Rightarrow> (str \<times> str) list" where
  "format_kwargs metadata track_padded =
     [(u ''artist'', or_empty (artist metadata)),
      (u ''album'', or_empty (album metadata)),
      (u ''track'', or_empty track_padded),
      (u ''title'', or_empty (title metadata))]"

definition generate_new_filename ::
    "runtime \<Rightarrow> config \<Rightarrow> metadata \<Rightarrow> str \<Rightarrow> py_error + str" where
  "generate_new_filename rt cfg metadata extension =
     (let track = track_number metadata;
          track_padded = pad_track rt track;
          fmt = choose_format cfg track_padded
      in case py_format (format_kwargs metadata track_padded) fmt of
           Inl e \<Rightarrow> Inl e
         | Inr new_name \<Rightarrow> Inr (new_name @ extension))"

definition add_required :: "str \<Rightarrow> field set \<Rightarrow> field set" where
  "add_required fmt required =
     (if contains fmt (u ''{artist}'') then {Artist} else {}) \<union>
     (if contains fmt (u ''{album}'') then {Album} else {}) \<union>
     (if contains fmt (u ''{title}'') then {Title} else {}) \<union> required"

definition get_required_fields :: "config \<Rightarrow> field set" where
  "get_required_fields cfg =
     fold add_required [FILENAME_FORMAT cfg, FILENAME_FORMAT_NO_TRACK cfg] {}"

section \<open>The pipeline\<close>

record RenameResult =
  original_path :: path
  new_name :: "str option"
  success :: bool
  reason :: "str option"
  was_sanitized :: bool
  sanitize_details :: "(field \<times> str option \<times> str option) list"

text \<open>A failed result: the constructor's defaults for the other attributes.\<close>

definition failed_result :: "path \<Rightarrow> str \<Rightarrow> RenameResult" where
  "failed_result filepath why =
     \<lparr>original_path = filepath, new_name = None, success = False, reason = Some why,
      was_sanitized = False, sanitize_details = []\<rparr>"

text \<open>
  Iterating over a set of field names visits each element once, in an order that the
  program does not choose.  The runtime's list ranks the fields; a field that the list does
  not mention comes after those it mentions; of a field listed twice the first mention counts.
  Every order of every set arises from some list.
\<close>

definition iterate :: "runtime \<Rightarrow> field set \<Rightarrow> field list" where
  "iterate rt required =
     filter (\<lambda>f. f \<in> required)
       (rev (remdups (rev (set_order rt @ [Artist, Album, Track_number, Title]))))"

definition missing_fields :: "runtime \<Rightarrow> config \<Rightarrow> metadata \<Rightarrow> field list" where
  "missing_fields rt cfg metadata =
     filter (\<lambda>f. \<not> truthy (md_get metadata f)) (iterate rt (get_required_fields cfg))"

text \<open>
  The loop that sanitizes artist, album and title; its state is the sanitized metadata,
  the details and the flag.
\<close>

fun sanitize_fields ::
    "metadata \<Rightarrow> field list \<Rightarrow>
     metadata \<times> (field \<times> str option \<times> str option) list \<times> bool \<Rightarrow>
     metadata \<times> (field \<times> str option \<times> str option) list \<times> bool" where
  "sanitize_fields metadata [] st = st"
| "sanitize_fields metadata (f # fs) (sanitized_metadata, details, was) =
     (let original = md_get metadata f in
      if truthy original then
        (let (sanitized, changed) = sanitize original in
         sanitize_fields metadata fs
           (md_set sanitized_metadata f sanitized,
            (if changed then details @ [(f, original, sanitized)] else details),
            (if changed then True else was)))
      else
        sanitize_fields metadata fs (md_set sanitized_metadata f original, details, was))"

definition process_file :: "runtime \<Rightarrow> config \<Rightarrow> path \<Rightarrow> py_error + RenameResult" where
  "process_file rt cfg filepath =
     (let extension = lower (name_suffix (path_name filepath)) in
      if extension \<notin> set SUPPORTED_EXTENSIONS then
        Inr (failed_result filepath (u ''Unsupported format''))
      else
        (case get_metadata rt filepath of
           None \<Rightarrow> Inr (failed_result filepath (u ''Could not read metadata''))
         | Some metadata \<Rightarrow>
             (let missing = missing_fields rt cfg metadata in
              if missing \<noteq> [] then
                Inr (failed_result filepath
                       (u ''Missing metadata: '' @ join (u '', '') (map field_key missing)))
              else
                (let (sanitized_metadata, details, was) =
                       sanitize_fields metadata [Artist, Album, Title]
                         (\<lparr>artist = None, album = None, track_number = None, title = None\<rparr>,
                          [], False);
                     sanitized_metadata =
                       sanitized_metadata\<lparr>track_number := track_number metadata\<rparr>
                 in case generate_new_filename rt cfg sanitized_metadata extension of
                      Inl e \<Rightarrow> Inl e
                    | Inr name \<Rightarrow>
                        Inr \<lparr>original_path = filepath, new_name = Some name, success = True,
                             reason = None, was_sanitized = was,
                             sanitize_details = details\<rparr>))))"

section \<open>The filesystem\<close>

text \<open>
  A filesystem is a finite table from paths to nodes; a file holds its bytes.  The root
  directory is the empty path and always exists.
\<close>

datatype node = File "nat list" | Dir

type_synonym filesystem = "(path \<times> node) list"

definition lookup :: "filesystem \<Rightarrow> path \<Rightarrow> node option" where
  "lookup fs p = (if p = [] then Some Dir else map_of fs p)"

definition exists :: "filesystem \<Rightarrow> path \<Rightarrow> bool" where
  "exists fs p = (lookup fs p \<noteq> None)"

definition is_dir :: "filesystem \<Rightarrow> path \<Rightarrow> bool" where
  "is_dir fs p = (lookup fs p = Some Dir)"

definition is_file :: "filesystem \<Rightarrow> path \<Rightarrow> bool" where
  "is_file fs p = (case lookup fs p of Some (File content) \<Rightarrow> True | _ \<Rightarrow> False)"

definition put :: "filesystem \<Rightarrow> path \<Rightarrow> node \<Rightarrow> filesystem" where
  "put fs p n = (p, n) # filter (\<lambda>(q, m). q \<noteq> p) fs"

text \<open>
  \<open>dir / name\<close> for a name of one component; pathlib drops an empty name.  The names the
  program joins are filenames built from sanitized tags and names of scanned files.
\<close>

definition joinpath :: "path \<Rightarrow> str \<Rightarrow> path" where
  "joinpath dir name = (if name = [] then dir else dir @ [name])"

section \<open>The directory scanner\<close>

text \<open>
  \<open>dir_path.rglob(pattern)\<close> walks the directories below \<open>dir_path\<close> and yields every
  entry, file or directory, whose name matches the pattern.
\<close>

definition reachable :: "filesystem \<Rightarrow> path \<Rightarrow> path \<Rightarrow> bool" where
  "reachable fs dir p \<longleftrightarrow>
     strict_prefix dir p \<and>
     (\<forall>q \<in> set (prefixes p). prefix dir q \<and> q \<noteq> p \<longrightarrow> is_dir fs q)"

definition rglob :: "runtime \<Rightarrow> filesystem \<Rightarrow> path \<Rightarrow> str \<Rightarrow> path list" where
  "rglob rt fs dir pattern =
     filter (\<lambda>p. reachable fs dir p \<and> fnmatch rt (path_name p) pattern) (map fst fs)"

text \<open>
  Two \<open>Path\<close> objects are equal, and hash alike, when their case-folded components are
  equal: \<open>set(audio_files)\<close> keeps one path of each such key, the one inserted first.
  \<open>list.sort()\<close> orders paths by the list order on their case-folded components, each
  component compared as a string.
\<close>

definition cparts :: "runtime \<Rightarrow> path \<Rightarrow> str list" where
  "cparts rt p = map (casefold rt) p"

fun dedupe :: "runtime \<Rightarrow> str list list \<Rightarrow> path list \<Rightarrow> path list" where
  "dedupe rt seen [] = []"
| "dedupe rt seen (p # ps) =
     (if cparts rt p \<in> set seen then dedupe rt seen ps
      else p # dedupe rt (cparts rt p # seen) ps)"

definition find_audio_files :: "runtime \<Rightarrow> filesystem \<Rightarrow> path \<Rightarrow> path list" where
  "find_audio_files rt fs dir_path =
     (let audio_files =
            concat (map (\<lambda>ext. rglob rt fs dir_path (42 # ext)
                               @ rglob rt fs dir_path (42 # upper ext))
                        SUPPORTED_EXTENSIONS);
          audio_files = dedupe rt [] audio_files
      in sort_key (cparts rt) audio_files)"

text \<open>The loop over the files found; an exception of \<open>process_file\<close> ends the scan.\<close>

fun process_all ::
    "runtime \<Rightarrow> config \<Rightarrow> path list \<Rightarrow> RenameResult list \<times> RenameResult list \<Rightarrow>
     py_error + RenameResult list \<times> RenameResult list" where
  "process_all rt cfg [] (successful, failed) = Inr (successful, failed)"
| "process_all rt cfg (filepath # rest) (successful, failed) =
     (case process_file rt cfg filepath of
        Inl e \<Rightarrow> Inl e
      | Inr result \<Rightarrow>
          if success result then process_all rt cfg rest (successful @ [result], failed)
          else process_all rt cfg rest (successful, failed @ [result]))"

definition scan_directory ::
    "runtime \<Rightarrow> config \<Rightarrow> filesystem \<Rightarrow> path \<Rightarrow>
     py_error + RenameResult list \<times> RenameResult list" where
  "scan_directory rt cfg fs directory =
     (if \<not> exists fs directory then Inl SystemExit
      else if \<not> is_dir fs directory then Inl SystemExit
      else process_all rt cfg (find_audio_files rt fs directory) ([], []))"

text \<open>
  The POSIX flavour: paths are compared as they are spelled, and a pattern that is a star
  followed by literal characters matches the names that end with these characters.
\<close>

definition posix_fnmatch :: "str \<Rightarrow> str \<Rightarrow> bool" where
  "posix_fnmatch name pattern =
     (case pattern of
        [] \<Rightarrow> name = []
      | c # rest \<Rightarrow> if c = 42 then suffix rest name else name = pattern)"

section \<open>The executor\<close>

text \<open>
  \<open>Path.mkdir(parents=True)\<close> creates the directory and its missing ancestors; it raises
  when the path is there already or when a file stands where a directory is needed.
\<close>

definition mkdir_parents :: "filesystem \<Rightarrow> path \<Rightarrow> py_error + filesystem" where
  "mkdir_parents fs p =
     (if exists fs p then Inl FileExistsError
      else if list_ex (is_file fs) (prefixes p) then Inl NotADirectoryError
      else Inr (fold (\<lambda>q fs. if exists fs q then fs else put fs q Dir) (prefixes p) fs))"

text \<open>
  What the operating system does to one copy: it goes through, or it fails with an
  \<open>OSError\<close>, leaving nothing or a file with some bytes at the destination.
\<close>

datatype io = IoOk | IoError "nat list option"

text \<open>
  \<open>shutil.copy2(src, dst)\<close>: the source must be a file; a destination that is a directory
  stands for the entry of the source's name inside it; the destination's directory must
  exist; an existing destination file is overwritten.  The result is the exception raised,
  if any, and the filesystem after the call.
\<close>

definition copy2 ::
    "filesystem \<Rightarrow> io \<Rightarrow> path \<Rightarrow> path \<Rightarrow> py_error option \<times> filesystem" where
  "copy2 fs ev src dst =
     (case lookup fs src of
        None \<Rightarrow> (Some FileNotFoundError, fs)
      | Some Dir \<Rightarrow> (Some IsADirectoryError, fs)
      | Some (File content) \<Rightarrow>
          (let dst = (if is_dir fs dst then joinpath dst (path_name src) else dst) in
           if dst = src then (Some SameFileError, fs)
           else if is_dir fs dst then (Some IsADirectoryError, fs)
           else if \<not> exists fs (butlast dst) then (Some FileNotFoundError, fs)
           else if \<not> is_dir fs (butlast dst) then (Some NotADirectoryError, fs)
           else (case ev of
                   IoOk \<Rightarrow> (None, put fs dst (File content))
                 | IoError None \<Rightarrow> (Some OSError, fs)
                 | IoError (Some bytes) \<Rightarrow> (Some OSError, put fs dst (File bytes)))))"

text \<open>The candidate name \<open>f"{base} ({counter}){ext}"\<close>.\<close>

definition numbered :: "str \<Rightarrow> str \<Rightarrow> nat \<Rightarrow> str" where
  "numbered base ext counter = base @ u '' ('' @ digits counter @ u '')'' @ ext"

text \<open>
  The probing loop ends because the decimal numerals of different counters differ, so the
  candidates are pairwise different names and only finitely many of them are in the table.
\<close>

lemma undigits_digits: "foldl (\<lambda>a d. 10 * a + (d - 48)) 0 (digits n) = n"
proof (induction n rule: digits.induct)
  case (1 n)
  show ?case
  proof (cases "n < 10")
    case True
    then show ?thesis by (subst digits.simps) simp
  next
    case False
    with 1 have "foldl (\<lambda>a d. 10 * a + (d - 48)) 0 (digits (n div 10)) = n div 10" by simp
    with False show ?thesis by (subst digits.simps) simp
  qed
qed

lemma digits_inj: "digits m = digits n \<Longrightarrow> m = n"
  by (metis undigits_digits)

lemma numbered_inj: "numbered base ext m = numbered base ext n \<Longrightarrow> m = n"
  by (auto simp: numbered_def dest: digits_inj)

lemma finite_numbered_existing:
  "finite {k. exists fs (dir @ [numbered base ext k])}"
proof -
  have "inj (\<lambda>k. dir @ [numbered base ext k])"
    by (auto simp: inj_def dest: numbered_inj)
  then have "finite ((\<lambda>k. dir @ [numbered base ext k]) -` (fst ` set fs))"
    by (intro finite_vimageI) auto
  moreover have "{k. exists fs (dir @ [numbered base ext k])}
        \<subseteq> (\<lambda>k. dir @ [numbered base ext k]) -` (fst ` set fs)"
    by (force simp: exists_def lookup_def dest!: map_of_SomeD)
  ultimately show ?thesis by (rule rev_finite_subset)
qed

definition pending :: "filesystem \<Rightarrow> path \<Rightarrow> str \<Rightarrow> str \<Rightarrow> nat \<Rightarrow> nat" where
  "pending fs dir base ext counter =
     card {k. counter \<le> k \<and> exists fs (dir @ [numbered base ext k])}"

lemma pending_step_exists:
  "exists fs (dir @ [numbered base ext counter]) \<Longrightarrow>
   pending fs dir base ext (Suc counter) < pending fs dir base ext counter"
proof -
  assume e: "exists fs (dir @ [numbered base ext counter])"
  let ?A = "{k. counter \<le> k \<and> exists fs (dir @ [numbered base ext k])}"
  let ?B = "{k. Suc counter \<le> k \<and> exists fs (dir @ [numbered base ext k])}"
  have fin: "finite ?A" using finite_numbered_existing [of fs dir base ext] by simp
  have "counter \<in> ?A" "counter \<notin> ?B" "?B \<subseteq> ?A" using e by auto
  then have "?B \<subset> ?A" by blast
  with fin show ?thesis unfolding pending_def by (rule psubset_card_mono)
qed

lemma pending_step_le:
  "pending fs dir base ext (Suc counter) \<le> pending fs dir base ext counter"
proof -
  let ?A = "{k. counter \<le> k \<and> exists fs (dir @ [numbered base ext k])}"
  let ?B = "{k. Suc counter \<le> k \<and> exists fs (dir @ [numbered base ext k])}"
  have fin: "finite ?A" using finite_numbered_existing [of fs dir base ext] by simp
  have "?B \<subseteq> ?A" by auto
  with fin show ?thesis unfolding pending_def by (rule card_mono)
qed

lemma numbered_nonempty: "numbered base ext k \<noteq> []"
  by (simp add: numbered_def u_def)

lemma probe_measure:
  "2 * pending fs dir base ext (Suc counter)
     + (if exists fs (joinpath dir (numbered base ext counter)) then 1 else 0)
   < Suc (2 * pending fs dir base ext counter)"
proof (cases "exists fs (dir @ [numbered base ext counter])")
  case True
  from pending_step_exists [OF True] True show ?thesis
    by (simp add: joinpath_def numbered_nonempty)
next
  case False
  with pending_step_le [of fs dir base ext counter] show ?thesis
    by (simp add: joinpath_def numbered_nonempty)
qed

function probe :: "filesystem \<Rightarrow> path \<Rightarrow> str \<Rightarrow> str \<Rightarrow> path \<Rightarrow> nat \<Rightarrow> path" where
  "probe fs dir base ext dest_path counter =
     (if exists fs dest_path
      then probe fs dir base ext (joinpath dir (numbered base ext counter)) (counter + 1)
      else dest_path)"
  by pat_completeness auto
termination
  apply (relation "measure (\<lambda>(fs, dir, base, ext, dest_path, counter).
          2 * pending fs dir base ext counter + (if exists fs dest_path then 1 else 0))")
   apply simp
  apply (simp add: probe_measure)
  done


declare probe.simps [simp del]

text \<open>
  The collision handling of both copy loops: when the destination exists, the stem and the
  suffix of its name are taken once and the candidates are probed from counter 1.
\<close>

definition resolve_collision :: "filesystem \<Rightarrow> path \<Rightarrow> path \<Rightarrow> path" where
  "resolve_collision fs dir dest_path =
     (if exists fs dest_path then
        probe fs dir (name_stem (path_name dest_path)) (name_suffix (path_name dest_path))
          dest_path 1
      else dest_path)"

text \<open>
  The names tried for a destination, in their order: the destination itself, then the
  numbered names from 1 on.
\<close>

definition candidate :: "path \<Rightarrow> path \<Rightarrow> nat \<Rightarrow> path" where
  "candidate dir dest_path k =
     (if k = 0 then dest_path
      else joinpath dir (numbered (name_stem (path_name dest_path))
                                  (name_suffix (path_name dest_path)) k))"

text \<open>
  What the program prints while it copies: one constructor for each \<open>print\<close> call of the
  executor, with the values that the call formats.
\<close>

datatype message =
    Created_output path
  | Created_failed path
  | Copying_header
  | Collision str str
  | Copied_sanitized str str
  | Copied_clean str str
  | Failed_header
  | Copied_failed str "str option"
  | Summary_rule
  | Summary_title
  | Summary_copied nat
  | Summary_clean int
  | Summary_sanitized nat
  | Summary_failed nat
  | Summary_untouched
  | Errors_header nat
  | Error_line str py_error
  | Blank_line

text \<open>
  The state of a run: the filesystem, what the operating system will do to the copies still
  to come, what the standard output will do to the prints still to come (\<open>None\<close>: the text
  is written, \<open>Some e\<close>: the call raises \<open>e\<close>, as a console does that cannot encode the signs
  and arrows of the messages), the text written so far, the counters and the error list.
\<close>

record exec_state =
  st_fs :: filesystem
  st_io :: "io list"
  st_tty :: "py_error option list"
  printed :: "message list"
  copied_count :: nat
  sanitized_count :: nat
  failed_count :: nat
  errors :: "(str \<times> py_error) list"

text \<open>The next event of the operating system; a stream that has run out answers \<open>IoOk\<close>.\<close>

fun next_io :: "io list \<Rightarrow> io \<times> io list" where
  "next_io [] = (IoOk, [])"
| "next_io (ev # rest) = (ev, rest)"

text \<open>\<open>print(m)\<close>; a stream that has run out writes every text.\<close>

fun next_tty :: "py_error option list \<Rightarrow> py_error option \<times> py_error option list" where
  "next_tty [] = (None, [])"
| "next_tty (ev # rest) = (ev, rest)"

definition py_print :: "exec_state \<Rightarrow> message \<Rightarrow> py_error option \<times> exec_state" where
  "py_print st m =
     (let (ev, rest) = next_tty (st_tty st) in
      case ev of
        Some e \<Rightarrow> (Some e, st\<lparr>st_tty := rest\<rparr>)
      | None \<Rightarrow> (None, st\<lparr>st_tty := rest, printed := printed st @ [m]\<rparr>))"

text \<open>Statements in sequence: an exception that nothing catches ends the run.\<close>

fun and_then ::
    "py_error option \<times> exec_state \<Rightarrow> (exec_state \<Rightarrow> py_error option \<times> exec_state) \<Rightarrow>
     py_error option \<times> exec_state" where
  "and_then (Some e, st) f = (Some e, st)"
| "and_then (None, st) f = f st"

text \<open>The \<open>except\<close> clause of both loops: the exception is recorded and the loop goes on.\<close>

definition record_error :: "str \<Rightarrow> py_error \<Rightarrow> exec_state \<Rightarrow> exec_state" where
  "record_error name e st = st\<lparr>errors := errors st @ [(name, e)]\<rparr>"

text \<open>
  One turn of the loop over the successful results.  The join with \<open>new_name\<close> stands outside
  the \<open>try\<close>: a result without a new name raises \<open>TypeError\<close>, which nothing catches.
  Inside the \<open>try\<close> stand the collision handling with its print, the copy, the counters and
  the print of the copied file; the first of them that raises ends the turn, and the
  exception is recorded with the name of the source.  The result is the uncaught exception,
  if any, and the state.
\<close>

definition copy_successful ::
    "path \<Rightarrow> exec_state \<Rightarrow> RenameResult \<Rightarrow> py_error option \<times> exec_state" where
  "copy_successful output_path st result =
     (let src_path = original_path result in
      case new_name result of
        None \<Rightarrow> (Some TypeError, st)
      | Some name \<Rightarrow>
          (let dest_path = joinpath output_path name;
               collision = exists (st_fs st) dest_path;
               dest_path = resolve_collision (st_fs st) output_path dest_path;
               (raised, st) =
                 (if collision then py_print st (Collision name (path_name dest_path))
                  else (None, st))
           in case raised of
                Some e \<Rightarrow> (None, record_error (path_name src_path) e st)
              | None \<Rightarrow>
                  (let (ev, rest) = next_io (st_io st);
                       (raised, fs') = copy2 (st_fs st) ev src_path dest_path;
                       st = st\<lparr>st_fs := fs', st_io := rest\<rparr>
                   in case raised of
                        Some e \<Rightarrow> (None, record_error (path_name src_path) e st)
                      | None \<Rightarrow>
                          (let st = st\<lparr>copied_count := copied_count st + 1\<rparr>;
                               st = (if was_sanitized result
                                     then st\<lparr>sanitized_count := sanitized_count st + 1\<rparr>
                                     else st);
                               (raised, st) =
                                 py_print st
                                   (if was_sanitized result
                                    then Copied_sanitized (path_name src_path) (path_name dest_path)
                                    else Copied_clean (path_name src_path) (path_name dest_path))
                           in case raised of
                                Some e \<Rightarrow> (None, record_error (path_name src_path) e st)
                              | None \<Rightarrow> (None, st)))))"

text \<open>
  One turn of the loop over the failed results: the file keeps its name, and the collision
  handling prints nothing.
\<close>

definition copy_failed :: "path \<Rightarrow> exec_state \<Rightarrow> RenameResult \<Rightarrow> exec_state" where
  "copy_failed failed_path st result =
     (let src_path = original_path result;
          dest_path = joinpath failed_path (path_name src_path);
          dest_path = resolve_collision (st_fs st) failed_path dest_path;
          (ev, rest) = next_io (st_io st);
          (raised, fs') = copy2 (st_fs st) ev src_path dest_path;
          st = st\<lparr>st_fs := fs', st_io := rest\<rparr>
      in case raised of
           Some e \<Rightarrow> record_error (path_name src_path) e st
         | None \<Rightarrow>
             (let st = st\<lparr>failed_count := failed_count st + 1\<rparr>;
                  (raised, st) = py_print st (Copied_failed (path_name src_path) (reason result))
              in case raised of
                   Some e \<Rightarrow> record_error (path_name src_path) e st
                 | None \<Rightarrow> st))"

fun copy_all_successful ::
    "path \<Rightarrow> exec_state \<Rightarrow> RenameResult list \<Rightarrow> py_error option \<times> exec_state" where
  "copy_all_successful output_path st [] = (None, st)"
| "copy_all_successful output_path st (result # rest) =
     and_then (copy_successful output_path st result)
       (\<lambda>st. copy_all_successful output_path st rest)"

fun copy_all_failed :: "path \<Rightarrow> exec_state \<Rightarrow> RenameResult list \<Rightarrow> exec_state" where
  "copy_all_failed failed_path st [] = st"
| "copy_all_failed failed_path st (result # rest) =
     copy_all_failed failed_path (copy_failed failed_path st result) rest"

text \<open>
  A directory that does not exist is created and the creation printed; neither the
  exception of \<open>mkdir\<close> nor that of the print is caught.
\<close>

definition create_missing ::
    "path \<Rightarrow> message \<Rightarrow> exec_state \<Rightarrow> py_error option \<times> exec_state" where
  "create_missing p m st =
     (if exists (st_fs st) p then (None, st)
      else (case mkdir_parents (st_fs st) p of
              Inl e \<Rightarrow> (Some e, st)
            | Inr fs' \<Rightarrow> py_print (st\<lparr>st_fs := fs'\<rparr>) m))"

text \<open>The prints of the summary, in their order.\<close>

fun print_all :: "message list \<Rightarrow> exec_state \<Rightarrow> py_error option \<times> exec_state" where
  "print_all [] st = (None, st)"
| "print_all (m # ms) st = and_then (py_print st m) (print_all ms)"

definition summary :: "exec_state \<Rightarrow> message list" where
  "summary st =
     [Summary_rule, Summary_title, Summary_rule,
      Summary_copied (copied_count st),
      Summary_clean (int (copied_count st) - int (sanitized_count st)),
      Summary_sanitized (sanitized_count st),
      Summary_failed (failed_count st),
      Summary_untouched]
     @ (if errors st \<noteq> []
        then Errors_header (length (errors st)) # map (\<lambda>(name, e). Error_line name e) (errors st)
        else [])
     @ [Blank_line]"

text \<open>
  The executor.  The result is the uncaught exception, if any, and the state in which the
  run ended.
\<close>

definition initial_state :: "filesystem \<Rightarrow> io list \<Rightarrow> py_error option list \<Rightarrow> exec_state" where
  "initial_state fs evs tty =
     \<lparr>st_fs = fs, st_io = evs, st_tty = tty, printed = [], copied_count = 0,
      sanitized_count = 0, failed_count = 0, errors = []\<rparr>"

definition execute_copy_rename ::
    "filesystem \<Rightarrow> io list \<Rightarrow> py_error option list \<Rightarrow>
     RenameResult list \<Rightarrow> RenameResult list \<Rightarrow> path \<Rightarrow>
     py_error option \<times> exec_state" where
  "execute_copy_rename fs evs tty successful failed output_path =
     (let failed_path = joinpath output_path (u ''_failed'');
          run = create_missing output_path (Created_output output_path)
                  (initial_state fs evs tty);
          run = and_then run
                  (\<lambda>st. if failed \<noteq> []
                        then create_missing failed_path (Created_failed failed_path) st
                        else (None, st));
          run = and_then run (\<lambda>st. py_print st Copying_header);
          run = and_then run (\<lambda>st. copy_all_successful output_path st successful);
          run = and_then run
                  (\<lambda>st. if failed \<noteq> []
                        then and_then (py_print st Failed_header)
                               (\<lambda>st. (None, copy_all_failed failed_path st failed))
                        else (None, st));
          run = and_then run (\<lambda>st. print_all (summary st) st)
      in run)"

text \<open>
  The second filesystem differs from the first only by new entries, each of them below the
  given directory or a directory on the way to it.
\<close>

definition only_adds :: "path \<Rightarrow> filesystem \<Rightarrow> filesystem \<Rightarrow> bool" where
  "only_adds dir fs fs' \<longleftrightarrow>
     (\<forall>p. lookup fs' p = lookup fs p
          \<or> (lookup fs p = None \<and> (prefix dir p \<or> (prefix p dir \<and> lookup fs' p = Some Dir))))"

section \<open>Example inputs\<close>

text \<open>
  A POSIX runtime whose tag library answers every file with the given easy tags, the
  configuration and the tags of the end-to-end scenario, and variants of the tags.
\<close>

definition tagged_runtime :: "(str \<Rightarrow> str list option) \<Rightarrow> runtime" where
  "tagged_runtime tags =
     \<lparr>MutagenFile = (\<lambda>p. Returns (Some tags)), MP4 = (\<lambda>p. Raises),
      decimal = ascii_decimal, set_order = [], casefold = (\<lambda>s. s),
      fnmatch = posix_fnmatch\<rparr>"

definition scenario_config :: config where
  "scenario_config =
     \<lparr>FILENAME_FORMAT = u ''{track} {title} _ {artist}'',
      FILENAME_FORMAT_NO_TRACK = u ''{title} _ {artist}''\<rparr>"

definition scenario_tags :: "str \<Rightarrow> str list option" where
  "scenario_tags key =
     (if key = u ''artist'' then Some [u ''AC/DC'']
      else if key = u ''title'' then Some [u ''T.N.T'']
      else if key = u ''tracknumber'' then Some [u ''3'']
      else None)"

definition trackless_tags :: "str \<Rightarrow> str list option" where
  "trackless_tags key =
     (if key = u ''artist'' then Some [u ''AC/DC'']
      else if key = u ''title'' then Some [u ''T.N.T'']
      else None)"

definition untitled_tags :: "str \<Rightarrow> str list option" where
  "untitled_tags key = (if key = u ''artist'' then Some [u ''AC/DC''] else None)"

definition empty_title_tags :: "str \<Rightarrow> str list option" where
  "empty_title_tags key =
     (if key = u ''artist'' then Some [u ''AC/DC'']
      else if key = u ''title'' then Some [[]]
      else None)"

definition song_path :: path where
  "song_path = [u ''music'', u ''song.mp3'']"

text \<open>
  A music directory with a file whose extension mixes the cases, and one in which a
  subdirectory and a file share the beginning of their names.
\<close>

definition mixed_case_fs :: filesystem where
  "mixed_case_fs = [([u ''music''], Dir), ([u ''music'', u ''song.Mp3''], File [1])]"

definition nested_fs :: filesystem where
  "nested_fs =
     [([u ''music''], Dir),
      ([u ''music'', u ''a''], Dir),
      ([u ''music'', u ''a'', u ''z.mp3''], File [1]),
      ([u ''music'', u ''a-b.mp3''], File [2])]"

text \<open>
  A music directory with three tagged files and one file that is no audio file, results
  that rename a file of it to \<open>X.mp3\<close>, and the directory after two such copies.
\<close>

definition album_fs :: filesystem where
  "album_fs =
     [([u ''music''], Dir),
      ([u ''music'', u ''a.mp3''], File [1]),
      ([u ''music'', u ''b.mp3''], File [2]),
      ([u ''music'', u ''c.mp3''], File [3]),
      ([u ''music'', u ''notes.txt''], File [4])]"

definition renamed :: "str \<Rightarrow> RenameResult" where
  "renamed src =
     \<lparr>original_path = [u ''music'', src], new_name = Some (u ''X.mp3''), success = True,
      reason = None, was_sanitized = False, sanitize_details = []\<rparr>"

definition occupied_fs :: filesystem where
  "occupied_fs =
     [([u ''music'', u ''X (1).mp3''], File [2]),
      ([u ''music'', u ''X.mp3''], File [1]),
      ([u ''music''], Dir)]"

text \<open>
  A library with an output root that has its failed directory, and failed results for two
  unreadable files that are both named \<open>X.mp3\<close> and lie in two subdirectories.
\<close>

definition library_fs :: filesystem where
  "library_fs =
     [([u ''music''], Dir),
      ([u ''music'', u ''a.mp3''], File [1]),
      ([u ''music'', u ''b.mp3''], File [2]),
      ([u ''music'', u ''c.mp3''], File [3]),
      ([u ''music'', u ''one''], Dir),
      ([u ''music'', u ''one'', u ''X.mp3''], File [4]),
      ([u ''music'', u ''two''], Dir),
      ([u ''music'', u ''two'', u ''X.mp3''], File [5]),
      ([u ''out''], Dir),
      ([u ''out'', u ''_failed''], Dir)]"

definition unreadable :: "str \<Rightarrow> RenameResult" where
  "unreadable dir =
     failed_result [u ''music'', dir, u ''X.mp3''] (u ''Could not read metadata'')"

section \<open>Evaluation on the examples\<close>

lemma sanitize_Some:
  "sanitize (Some x) =
     (Some (strip (u '' .-'') (sub_dash_pair (sub_dashes (sub_spaces (sub_invalid
        (apply_replacements REPLACEMENTS x)))))),
      strip (u '' .-'') (sub_dash_pair (sub_dashes (sub_spaces (sub_invalid
        (apply_replacements REPLACEMENTS x))))) \<noteq> x)"
  by (simp add: sanitize_def Let_def)

lemmas sanitize_eval = sanitize_Some u_def REPLACEMENTS_def str_replace_def sub_invalid_def
  INVALID_CHARS_def is_space_def is_dash_def match_dash_pair_def strip_def

lemma sanitize_ACDC: "sanitize (Some (u ''AC/DC'')) = (Some (u ''AC-DC''), True)"
  by (simp add: sanitize_eval)

lemma sanitize_TNT: "sanitize (Some (u ''T.N.T'')) = (Some (u ''T.N.T''), False)"
  by (simp add: sanitize_eval)

lemma song_extension: "lower (name_suffix (path_name song_path)) = u ''.mp3''"
  by (simp add: song_path_def path_name_def name_suffix_def lower_def u_def Let_def)

lemma song_supported: "lower (name_suffix (path_name song_path)) \<in> set SUPPORTED_EXTENSIONS"
  by (simp add: song_extension SUPPORTED_EXTENSIONS_def u_def)

lemma song_not_mp4:
  "\<not> (endswith (lower (path_str song_path)) (u ''.m4a'')
      \<or> endswith (lower (path_str song_path)) (u ''.mp4''))"
  by (simp add: song_path_def path_str_def lower_def endswith_def u_def suffix_to_prefix)

lemma get_metadata_easy:
  "get_metadata (tagged_runtime tags) song_path =
     (case first_or_none (tags (u ''artist'')) of
               Raises \<Rightarrow> None
             | Returns a \<Rightarrow>
            (case first_or_none (tags (u ''album'')) of
               Raises \<Rightarrow> None
             | Returns b \<Rightarrow>
            (case first_or_none (tags (u ''title'')) of
               Raises \<Rightarrow> None
             | Returns t \<Rightarrow>
            (case first_or_none (tags (u ''tracknumber'')) of
               Raises \<Rightarrow> None
             | Returns track \<Rightarrow>
                 Some \<lparr>artist = a, album = b,
                       track_number =
                         (if truthy track
                          then Some (takeWhile (\<lambda>c. c \<noteq> 47) (or_empty track))
                          else None),
                       title = t\<rparr>))))"
  using song_not_mp4 by (simp add: get_metadata_def tagged_runtime_def)

lemma scenario_metadata:
  "get_metadata (tagged_runtime scenario_tags) song_path =
     Some \<lparr>artist = Some (u ''AC/DC''), album = None, track_number = Some (u ''3''),
           title = Some (u ''T.N.T'')\<rparr>"
  by (simp add: get_metadata_easy scenario_tags_def u_def)

lemma trackless_metadata:
  "get_metadata (tagged_runtime trackless_tags) song_path =
     Some \<lparr>artist = Some (u ''AC/DC''), album = None, track_number = None,
           title = Some (u ''T.N.T'')\<rparr>"
  by (simp add: get_metadata_easy trackless_tags_def u_def)

lemma untitled_metadata:
  "get_metadata (tagged_runtime untitled_tags) song_path =
     Some \<lparr>artist = Some (u ''AC/DC''), album = None, track_number = None, title = None\<rparr>"
  by (simp add: get_metadata_easy untitled_tags_def u_def)

lemma empty_title_metadata:
  "get_metadata (tagged_runtime empty_title_tags) song_path =
     Some \<lparr>artist = Some (u ''AC/DC''), album = None, track_number = None, title = Some []\<rparr>"
  by (simp add: get_metadata_easy empty_title_tags_def u_def)

lemma scenario_required: "get_required_fields scenario_config = {Artist, Title}"
  by (auto simp add: get_required_fields_def add_required_def scenario_config_def contains_def
      u_def sublist_code)

lemma pad_3: "pad_track (tagged_runtime tags) (Some (u ''3'')) = Some (u ''03'')"
  by (simp add: pad_track_def tagged_runtime_def py_int_def ascii_decimal_def is_space_def
      format_02d_def digits.simps u_def)

lemma scenario_track_placeholder: "contains (FILENAME_FORMAT scenario_config) (u ''{track}'')"
  by (simp add: scenario_config_def contains_def u_def sublist_code)

lemma scenario_generate:
  "generate_new_filename (tagged_runtime tags) scenario_config
      \<lparr>artist = Some (u ''AC-DC''), album = None, track_number = Some (u ''3''),
           title = Some (u ''T.N.T'')\<rparr> (u ''.mp3'') = Inr (u ''03 T.N.T _ AC-DC.mp3'')"
  using scenario_track_placeholder
  apply (simp add: generate_new_filename_def pad_3 choose_format_def format_kwargs_def Let_def)
  apply (simp add: scenario_config_def u_def format_field_def)
  done

section \<open>Properties of the sanitizer\<close>

lemma replace_from_absent: "\<not> sublist old s \<Longrightarrow> replace_from old new s = s"
proof (induction old new s rule: replace_from.induct)
  case (1 old new)
  show ?case by simp
next
  case (2 old new c cs)
  from "2.prems" have np: "\<not> prefix old (c # cs)"
    by (auto dest: prefix_imp_sublist)
  from "2.prems" have "\<not> sublist old cs"
    by (auto simp: sublist_Cons_right)
  with 2 np show ?case by simp
qed

lemma str_replace_absent: "old \<noteq> [] \<Longrightarrow> \<not> contains s old \<Longrightarrow> str_replace old new s = s"
  by (simp add: str_replace_def contains_def replace_from_absent)

lemma apply_replacements_absent:
  "(\<And>old new. (old, new) \<in> set rules \<Longrightarrow> old \<noteq> [] \<and> \<not> contains s old) \<Longrightarrow>
   apply_replacements rules s = s"
proof (induction rules)
  case Nil
  show ?case by simp
next
  case (Cons rule rules)
  obtain old new where r: "rule = (old, new)" by (cases rule)
  have "old \<noteq> [] \<and> \<not> contains s old" by (rule Cons.prems [of old new]) (simp add: r)
  then have "str_replace old new s = s" by (simp add: str_replace_absent)
  moreover have "apply_replacements rules s = s"
  proof (rule Cons.IH)
    fix old' new' assume "(old', new') \<in> set rules"
    then have "(old', new') \<in> set (rule # rules)" by simp
    then show "old' \<noteq> [] \<and> \<not> contains s old'" by (rule Cons.prems)
  qed
  ultimately show ?case by (simp add: r)
qed

lemma REPLACEMENTS_nonempty: "\<forall>(old, new) \<in> set REPLACEMENTS. old \<noteq> []"
  by (simp add: REPLACEMENTS_def u_def)

lemma sub_invalid_absent: "\<forall>c \<in> set s. c \<notin> set INVALID_CHARS \<Longrightarrow> sub_invalid s = s"
  by (simp add: sub_invalid_def)

lemma sub_spaces_single:
  "\<forall>c \<in> set s. is_space c \<longrightarrow> c = 32 \<Longrightarrow> \<not> contains s [32, 32] \<Longrightarrow> sub_spaces s = s"
proof (induction s)
  case Nil
  show ?case by simp
next
  case (Cons c cs)
  have tl: "\<not> contains cs [32, 32]"
    using Cons.prems(2) by (auto simp: contains_def sublist_Cons_right)
  have all: "\<forall>c \<in> set cs. is_space c \<longrightarrow> c = 32"
    using Cons.prems(1) by simp
  have ih: "sub_spaces cs = cs" using all tl by (rule Cons.IH)
  show ?case
  proof (cases "is_space c")
    case False
    then have "sub_spaces (c # cs) = c # sub_spaces cs" by simp
    with ih show ?thesis by simp
  next
    case True
    with Cons.prems(1) have c: "c = 32" by simp
    have d: "dropWhile is_space cs = cs"
    proof (cases cs)
      case Nil
      then show ?thesis by simp
    next
      case (Cons d ds)
      have "\<not> is_space d"
      proof
        assume "is_space d"
        with all Cons have "d = 32" by simp
        with c Cons have "prefix [32, 32] (c # cs)" by simp
        then have "contains (c # cs) [32, 32]"
          unfolding contains_def by (rule prefix_imp_sublist)
        with Cons.prems(2) show False by simp
      qed
      with Cons show ?thesis by simp
    qed
    from True have "sub_spaces (c # cs) = 32 # sub_spaces (dropWhile is_space cs)" by simp
    also have "\<dots> = 32 # cs" unfolding d ih ..
    finally show ?thesis using c by simp
  qed
qed

lemma sub_dashes_absent: "\<not> contains s [45, 45] \<Longrightarrow> sub_dashes s = s"
proof (induction s rule: sub_dashes.induct)
  case 1
  show ?case by simp
next
  case (2 c)
  show ?case by simp
next
  case (3 c d cs)
  have nd: "\<not> (is_dash c \<and> is_dash d)"
  proof
    assume "is_dash c \<and> is_dash d"
    then have "prefix [45, 45] (c # d # cs)" by (simp add: is_dash_def)
    then have "contains (c # d # cs) [45, 45]"
      unfolding contains_def by (rule prefix_imp_sublist)
    with "3.prems" show False by simp
  qed
  from "3.prems" have "\<not> contains (d # cs) [45, 45]"
    by (auto simp: contains_def sublist_Cons_right)
  with nd have "sub_dashes (d # cs) = d # cs" by (rule "3.IH"(2))
  moreover from nd have "sub_dashes (c # d # cs) = c # sub_dashes (d # cs)" by auto
  ultimately show ?case by simp
qed


lemma expect_dash_Some: "expect_dash t = Some r \<Longrightarrow> t = 45 # r"
  by (cases t) (auto simp: is_dash_def split: if_splits)

lemma expect_dash_dropWhile:
  assumes "expect_dash (dropWhile is_space t) = Some r"
  obtains a where "t = a @ 45 # r" "\<forall>c \<in> set a. is_space c"
proof
  from assms have "dropWhile is_space t = 45 # r" by (rule expect_dash_Some)
  then have "takeWhile is_space t @ 45 # r = takeWhile is_space t @ dropWhile is_space t"
    by simp
  then show "t = takeWhile is_space t @ 45 # r" by simp
  show "\<forall>c \<in> set (takeWhile is_space t). is_space c" by (auto dest: set_takeWhileD)
qed

lemma match_dash_pair_between:
  assumes "match_dash_pair t = Some r"
  obtains a b r' where "t = a @ 45 # b @ 45 # r'" "\<forall>c \<in> set b. is_space c"
proof -
  from assms obtain r1 r2 where a: "expect_dash (dropWhile is_space t) = Some r1"
    and b: "expect_dash (dropWhile is_space r1) = Some r2"
    by (auto simp: match_dash_pair_def split: option.splits)
  from a obtain x where t: "t = x @ 45 # r1" by (rule expect_dash_dropWhile)
  from b obtain y where r1: "r1 = y @ 45 # r2" and y: "\<forall>c \<in> set y. is_space c"
    by (rule expect_dash_dropWhile)
  have "t = x @ 45 # y @ 45 # r2" unfolding t by (subst r1) simp
  then show ?thesis using y by (rule that)
qed

lemma spaces_short:
  assumes "\<forall>c \<in> set b. c = 32" and "\<not> sublist [32, 32] b"
  shows "b = [] \<or> b = [32]"
proof (cases b)
  case Nil
  then show ?thesis by simp
next
  case (Cons x xs)
  with assms(1) have x: "x = 32" by simp
  show ?thesis
  proof (cases xs)
    case Nil
    with Cons x show ?thesis by simp
  next
    case (Cons y ys)
    with assms(1) \<open>b = x # xs\<close> have "y = 32" by simp
    with x Cons \<open>b = x # xs\<close> have "prefix [32, 32] b" by simp
    then have "sublist [32, 32] b" by (rule prefix_imp_sublist)
    with assms(2) show ?thesis by simp
  qed
qed

lemma no_dash_pair_match:
  assumes ws: "\<forall>c \<in> set s. is_space c \<longrightarrow> c = 32"
    and sp: "\<not> contains s [32, 32]"
    and d1: "\<not> contains s [45, 45]"
    and d2: "\<not> contains s [45, 32, 45]"
    and suf: "suffix t s"
  shows "match_dash_pair t = None"
proof (rule ccontr)
  assume "match_dash_pair t \<noteq> None"
  then obtain r where "match_dash_pair t = Some r" by auto
  then obtain a b r' where t: "t = a @ 45 # b @ 45 # r'" and b: "\<forall>c \<in> set b. is_space c"
    by (rule match_dash_pair_between)
  from suf obtain p where s: "s = p @ t" by (auto simp: suffix_def)
  have sb: "set b \<subseteq> set s" using s t by auto
  with ws b have b32: "\<forall>c \<in> set b. c = 32" by auto
  have "sublist b s" unfolding s t sublist_def
    by (rule exI [of _ "p @ a @ [45]"], rule exI [of _ "45 # r'"]) simp
  with sp have "\<not> sublist [32, 32] b"
    unfolding contains_def using sublist_order.order_trans by blast
  with b32 have "b = [] \<or> b = [32]" by (rule spaces_short)
  moreover have "sublist (45 # b @ [45]) s" unfolding s t sublist_def
    by (rule exI [of _ "p @ a"], rule exI [of _ "r'"]) simp
  ultimately show False using d1 d2 by (auto simp: contains_def)
qed

lemma sub_dash_pair_absent:
  "(\<And>t. suffix t s \<Longrightarrow> match_dash_pair t = None) \<Longrightarrow> sub_dash_pair s = s"
proof (induction s)
  case Nil
  show ?case by simp
next
  case (Cons c cs)
  have "match_dash_pair (c # cs) = None" by (rule Cons.prems) simp
  moreover have "sub_dash_pair cs = cs"
    by (rule Cons.IH) (rule Cons.prems, simp add: suffix_Cons)
  ultimately show ?case by simp
qed

lemma strip_untouched:
  assumes "s \<noteq> [] \<Longrightarrow> hd s \<notin> set chars \<and> last s \<notin> set chars"
  shows "strip chars s = s"
proof (cases s)
  case Nil
  then show ?thesis by (simp add: strip_def)
next
  case (Cons c cs)
  with assms have h: "c \<notin> set chars" and l: "last s \<notin> set chars" by auto
  from h Cons have a: "dropWhile (\<lambda>c. c \<in> set chars) s = s" by simp
  have ne: "s \<noteq> []" using Cons by simp
  have "hd (rev s) = last s" by (rule hd_rev)
  with l have "hd (rev s) \<notin> set chars" by simp
  moreover from ne have "rev s \<noteq> []" by simp
  ultimately have "dropWhile (\<lambda>c. c \<in> set chars) (rev s) = rev s"
    by (cases "rev s") auto
  with a show ?thesis by (simp add: strip_def)
qed

text \<open>
  C1.  Sanitizing is not idempotent.  The pattern for two dashes is replaced in one pass
  from the left, and a match ends where the next dash begins: of three dashes separated by
  spaces the first two are merged and the third stays, so the result still holds two dashes
  separated by a space, which a second call merges.  With four dashes the one pass leaves two
  adjacent spaces as well.
\<close>

theorem sanitize_twice_differs:
  "sanitize (Some (u ''a - - - b'')) = (Some (u ''a - - b''), True)
   \<and> sanitize (Some (u ''a - - b'')) = (Some (u ''a - b''), True)
   \<and> sanitize (Some (u ''a- - - -b'')) = (Some (u ''a -  - b''), True)"
  by (simp add: sanitize_eval)

text \<open>
  C2, as stated, fails: a string without any character of a rule or of the invalid set is
  still changed when it ends with a period.
\<close>

theorem sanitize_noop_counterexample:
  "\<not> has_rule_character (u ''x.'') \<and> sanitize (Some (u ''x.'')) = (Some (u ''x''), True)"
proof
  show "\<not> has_rule_character (u ''x.'')"
    by (simp add: has_rule_character_def REPLACEMENTS_def INVALID_CHARS_def u_def)
  show "sanitize (Some (u ''x.'')) = (Some (u ''x''), True)"
    by (simp add: sanitize_eval)
qed

text \<open>
  C2, amended.  A string is returned unchanged, with the flag false, when it contains no
  source string of a replacement rule and no invalid character, its only whitespace is
  single spaces, it has no two dashes that are adjacent or separated by a space, and it
  neither begins nor ends with a space, a period or a dash.  For every input the flag is
  true exactly when the output differs from the input.
\<close>

theorem sanitize_noop:
  assumes "\<forall>(old, new) \<in> set REPLACEMENTS. \<not> contains s old"
    and "\<forall>c \<in> set s. c \<notin> set INVALID_CHARS"
    and "\<forall>c \<in> set s. is_space c \<longrightarrow> c = 32"
    and "\<not> contains s (u ''  '')"
    and "\<not> contains s (u ''--'')"
    and "\<not> contains s (u ''- -'')"
    and "s \<noteq> [] \<longrightarrow> hd s \<notin> set (u '' .-'') \<and> last s \<notin> set (u '' .-'')"
  shows "sanitize (Some s) = (Some s, False)
       \<and> (\<forall>t. snd (sanitize t) \<longleftrightarrow> fst (sanitize t) \<noteq> t)"
proof
  have 1: "apply_replacements REPLACEMENTS s = s"
  proof (rule apply_replacements_absent)
    fix old new assume m: "(old, new) \<in> set REPLACEMENTS"
    with REPLACEMENTS_nonempty have "old \<noteq> []" by blast
    moreover from m assms(1) have "\<not> contains s old" by blast
    ultimately show "old \<noteq> [] \<and> \<not> contains s old" ..
  qed
  have 2: "sub_invalid s = s" using assms(2) by (rule sub_invalid_absent)
  have sp: "\<not> contains s [32, 32]" using assms(4) by (simp add: u_def)
  have d1: "\<not> contains s [45, 45]" using assms(5) by (simp add: u_def)
  have d2: "\<not> contains s [45, 32, 45]" using assms(6) by (simp add: u_def)
  have 3: "sub_spaces s = s" using assms(3) sp by (rule sub_spaces_single)
  have 4: "sub_dashes s = s" using d1 by (rule sub_dashes_absent)
  have 5: "sub_dash_pair s = s"
    by (rule sub_dash_pair_absent) (rule no_dash_pair_match [OF assms(3) sp d1 d2])
  have 6: "strip (u '' .-'') s = s" using assms(7) by (intro strip_untouched) simp
  show "sanitize (Some s) = (Some s, False)"
    by (simp add: sanitize_Some 1 2 3 4 5 6)
  show "\<forall>t. snd (sanitize t) \<longleftrightarrow> fst (sanitize t) \<noteq> t"
  proof
    fix t show "snd (sanitize t) \<longleftrightarrow> fst (sanitize t) \<noteq> t"
      by (cases t) (simp_all add: sanitize_def Let_def)
  qed
qed

theorem sanitize_noop_witness:
  "\<not> has_rule_character (u ''T.N.T'')
   \<and> sanitize (Some (u ''T.N.T'')) = (Some (u ''T.N.T''), False)
   \<and> snd (sanitize (Some (u ''x.''))) = (fst (sanitize (Some (u ''x.''))) \<noteq> Some (u ''x.''))"
proof -
  have h1: "\<forall>(old, new) \<in> set REPLACEMENTS. \<not> contains (u ''T.N.T'') old"
    by (simp add: REPLACEMENTS_def contains_def u_def sublist_code)
  have h2: "\<forall>c \<in> set (u ''T.N.T''). c \<notin> set INVALID_CHARS"
    by (simp add: INVALID_CHARS_def u_def)
  have h3: "\<forall>c \<in> set (u ''T.N.T''). is_space c \<longrightarrow> c = 32"
    by (simp add: is_space_def u_def)
  have h4: "\<not> contains (u ''T.N.T'') (u ''  '')"
    by (simp add: contains_def u_def sublist_code)
  have h5: "\<not> contains (u ''T.N.T'') (u ''--'')"
    by (simp add: contains_def u_def sublist_code)
  have h6: "\<not> contains (u ''T.N.T'') (u ''- -'')"
    by (simp add: contains_def u_def sublist_code)
  have h7: "u ''T.N.T'' \<noteq> [] \<longrightarrow>
      hd (u ''T.N.T'') \<notin> set (u '' .-'') \<and> last (u ''T.N.T'') \<notin> set (u '' .-'')"
    by (simp add: u_def)
  have h0: "\<not> has_rule_character (u ''T.N.T'')"
    by (simp add: has_rule_character_def REPLACEMENTS_def INVALID_CHARS_def u_def)
  from sanitize_noop [OF h1 h2 h3 h4 h5 h6 h7] h0 show ?thesis by blast
qed

section \<open>Properties of the pipeline\<close>

lemma field_UNIV: "(UNIV :: field set) = {Artist, Album, Track_number, Title}"
  using field.exhaust by auto

lemma set_iterate: "set (iterate rt required) = required"
proof -
  have "f \<in> set (rev (remdups (rev (set_order rt @ [Artist, Album, Track_number, Title]))))"
    for f by (cases f) simp_all
  then show ?thesis unfolding iterate_def by auto
qed

lemma distinct_iterate: "distinct (iterate rt required)"
  by (simp add: iterate_def)

lemma not_truthy_iff: "\<not> truthy v \<longleftrightarrow> v = None \<or> v = Some []"
  by (cases v) auto

lemma set_missing_fields:
  "set (missing_fields rt cfg md) =
     {g \<in> get_required_fields cfg. md_get md g = None \<or> md_get md g = Some []}"
  by (auto simp: missing_fields_def set_iterate not_truthy_iff)

lemma distinct_missing_fields: "distinct (missing_fields rt cfg md)"
  by (simp add: missing_fields_def distinct_iterate)

lemma get_required_fields_eq:
  "get_required_fields cfg =
     {f. f \<noteq> Track_number \<and>
         (contains (FILENAME_FORMAT cfg) (u ''{'' @ field_key f @ u ''}'')
          \<or> contains (FILENAME_FORMAT_NO_TRACK cfg) (u ''{'' @ field_key f @ u ''}''))}"
proof -
  have k: "u ''{'' @ field_key Artist @ u ''}'' = u ''{artist}''"
    "u ''{'' @ field_key Album @ u ''}'' = u ''{album}''"
    "u ''{'' @ field_key Title @ u ''}'' = u ''{title}''"
    by (simp_all add: u_def)
  show ?thesis
  proof (rule set_eqI)
    fix f show "f \<in> get_required_fields cfg \<longleftrightarrow> f \<in> {f. f \<noteq> Track_number \<and>
         (contains (FILENAME_FORMAT cfg) (u ''{'' @ field_key f @ u ''}'')
          \<or> contains (FILENAME_FORMAT_NO_TRACK cfg) (u ''{'' @ field_key f @ u ''}''))}"
      by (cases f) (auto simp: get_required_fields_def add_required_def k simp del: field_key.simps)
  qed
qed

lemma process_file_missing:
  assumes sup: "lower (name_suffix (path_name filepath)) \<in> set SUPPORTED_EXTENSIONS"
    and md: "get_metadata rt filepath = Some md"
    and f: "f \<in> get_required_fields cfg" "md_get md f = None \<or> md_get md f = Some []"
  shows "process_file rt cfg filepath =
           Inr (failed_result filepath
                  (u ''Missing metadata: '' @ join (u '', '') (map field_key (missing_fields rt cfg md))))"
proof -
  from f have "f \<in> set (missing_fields rt cfg md)" by (simp add: set_missing_fields)
  then have "missing_fields rt cfg md \<noteq> []" by auto
  with sup md show ?thesis by (simp add: process_file_def Let_def)
qed

lemma missing_fields_cong:
  assumes "set_order rt' = set_order rt"
    and "\<And>g. truthy (md_get md' g) = truthy (md_get md g)"
  shows "missing_fields rt' cfg md' = missing_fields rt cfg md"
  using assms by (simp add: missing_fields_def iterate_def)

lemma distinct_set_singleton: "distinct ms \<Longrightarrow> set ms = {x} \<Longrightarrow> ms = [x]"
proof (cases ms)
  case Nil
  assume "set ms = {x}"
  with Nil show ?thesis by simp
next
  case (Cons a rest)
  assume d: "distinct ms" and s: "set ms = {x}"
  from s Cons have a: "a = x" by auto
  from s Cons a have "set rest \<subseteq> {x}" by auto
  moreover from d Cons a have "x \<notin> set rest" by simp
  ultimately have "rest = []" by (cases rest) auto
  with Cons a show ?thesis by simp
qed

text \<open>
  C4.  The required fields are exactly those of artist, album and title whose placeholder
  occurs in one of the two templates; the track number is never among them.  When the
  extension is supported, the tags were read and a required field is absent, the file fails
  with the reason "Missing metadata" followed by a list that holds each required field
  that is absent or empty exactly once, whatever the other fields are.
\<close>

theorem required_field_gating:
  assumes "lower (name_suffix (path_name filepath)) \<in> set SUPPORTED_EXTENSIONS"
    and "get_metadata rt filepath = Some md"
    and "f \<in> get_required_fields cfg"
    and "md_get md f = None"
  shows "get_required_fields cfg =
           {g. g \<noteq> Track_number \<and>
               (contains (FILENAME_FORMAT cfg) (u ''{'' @ field_key g @ u ''}'')
                \<or> contains (FILENAME_FORMAT_NO_TRACK cfg) (u ''{'' @ field_key g @ u ''}''))}
       \<and> (\<exists>ms. process_file rt cfg filepath =
                  Inr (failed_result filepath
                         (u ''Missing metadata: '' @ join (u '', '') (map field_key ms)))
               \<and> distinct ms
               \<and> set ms = {g \<in> get_required_fields cfg.
                             md_get md g = None \<or> md_get md g = Some []}
               \<and> f \<in> set ms)"
proof (intro conjI exI)
  show "get_required_fields cfg =
           {g. g \<noteq> Track_number \<and>
               (contains (FILENAME_FORMAT cfg) (u ''{'' @ field_key g @ u ''}'')
                \<or> contains (FILENAME_FORMAT_NO_TRACK cfg) (u ''{'' @ field_key g @ u ''}''))}"
    by (rule get_required_fields_eq)
  show "process_file rt cfg filepath =
          Inr (failed_result filepath
                 (u ''Missing metadata: '' @ join (u '', '') (map field_key (missing_fields rt cfg md))))"
    using assms by (intro process_file_missing [where f = f]) simp_all
  show "distinct (missing_fields rt cfg md)" by (rule distinct_missing_fields)
  show "set (missing_fields rt cfg md) =
          {g \<in> get_required_fields cfg. md_get md g = None \<or> md_get md g = Some []}"
    by (rule set_missing_fields)
  show "f \<in> set (missing_fields rt cfg md)" using assms by (simp add: set_missing_fields)
qed

theorem required_field_gating_witness:
  "lower (name_suffix (path_name song_path)) \<in> set SUPPORTED_EXTENSIONS
   \<and> get_metadata (tagged_runtime untitled_tags) song_path =
       Some \<lparr>artist = Some (u ''AC/DC''), album = None, track_number = None, title = None\<rparr>
   \<and> Title \<in> get_required_fields scenario_config
   \<and> process_file (tagged_runtime untitled_tags) scenario_config song_path =
       Inr (failed_result song_path (u ''Missing metadata: title''))"
proof -
  let ?md = "\<lparr>artist = Some (u ''AC/DC''), album = None, track_number = None, title = None\<rparr>"
  have h3: "Title \<in> get_required_fields scenario_config" by (simp add: scenario_required)
  have h4: "md_get ?md Title = None" by simp
  from required_field_gating [OF song_supported untitled_metadata h3 h4]
  obtain ms where p: "process_file (tagged_runtime untitled_tags) scenario_config song_path =
         Inr (failed_result song_path (u ''Missing metadata: '' @ join (u '', '') (map field_key ms)))"
    and d: "distinct ms"
    and s: "set ms = {g \<in> get_required_fields scenario_config.
                        md_get ?md g = None \<or> md_get ?md g = Some []}"
    by blast
  have "set ms = {Title}" unfolding s scenario_required by (auto simp: u_def)
  with d have "ms = [Title]" by (rule distinct_set_singleton)
  with p have "process_file (tagged_runtime untitled_tags) scenario_config song_path =
       Inr (failed_result song_path (u ''Missing metadata: title''))"
    by (simp add: u_def)
  with song_supported untitled_metadata h3 show ?thesis by simp
qed

text \<open>
  C10.  A required field whose tag is the empty string counts as missing: the file fails
  with a "Missing metadata" reason that lists the field, and the result is the one the
  pipeline gives when the same field is absent.
\<close>

theorem empty_required_field_is_missing:
  assumes "lower (name_suffix (path_name filepath)) \<in> set SUPPORTED_EXTENSIONS"
    and "get_metadata rt filepath = Some md"
    and "f \<in> get_required_fields cfg"
    and "md_get md f = Some []"
    and "get_metadata rt' filepath = Some (md_set md f None)"
    and "set_order rt' = set_order rt"
  shows "(\<exists>ms. f \<in> set ms
            \<and> process_file rt cfg filepath =
                Inr (failed_result filepath
                       (u ''Missing metadata: '' @ join (u '', '') (map field_key ms))))
       \<and> process_file rt' cfg filepath = process_file rt cfg filepath"
proof -
  have t: "truthy (md_get (md_set md f None) g) = truthy (md_get md g)" for g
    using assms(4) by (cases f; cases g) auto
  have m: "missing_fields rt' cfg (md_set md f None) = missing_fields rt cfg md"
    using assms(6) t by (rule missing_fields_cong)
  have a: "process_file rt cfg filepath =
             Inr (failed_result filepath
                   (u ''Missing metadata: '' @ join (u '', '') (map field_key (missing_fields rt cfg md))))"
    using assms(1,2,3) by (rule process_file_missing) (simp add: assms(4))
  have n: "md_get (md_set md f None) f = None" by (cases f) auto
  have b: "process_file rt' cfg filepath =
             Inr (failed_result filepath
                   (u ''Missing metadata: '' @ join (u '', '') (map field_key
                        (missing_fields rt' cfg (md_set md f None)))))"
    using assms(1,5,3) by (rule process_file_missing) (simp add: n)
  have "f \<in> set (missing_fields rt cfg md)" using assms(3,4) by (simp add: set_missing_fields)
  with a b m show ?thesis by auto
qed

theorem empty_required_field_is_missing_witness:
  "lower (name_suffix (path_name song_path)) \<in> set SUPPORTED_EXTENSIONS
   \<and> get_metadata (tagged_runtime empty_title_tags) song_path =
       Some \<lparr>artist = Some (u ''AC/DC''), album = None, track_number = None, title = Some []\<rparr>
   \<and> get_metadata (tagged_runtime untitled_tags) song_path =
       Some \<lparr>artist = Some (u ''AC/DC''), album = None, track_number = None, title = None\<rparr>
   \<and> Title \<in> get_required_fields scenario_config
   \<and> process_file (tagged_runtime untitled_tags) scenario_config song_path =
       process_file (tagged_runtime empty_title_tags) scenario_config song_path"
proof -
  let ?md = "\<lparr>artist = Some (u ''AC/DC''), album = None, track_number = None, title = Some []\<rparr>"
  have h3: "Title \<in> get_required_fields scenario_config" by (simp add: scenario_required)
  have h4: "md_get ?md Title = Some []" by simp
  have h5: "get_metadata (tagged_runtime untitled_tags) song_path = Some (md_set ?md Title None)"
    by (simp add: untitled_metadata)
  have h6: "set_order (tagged_runtime untitled_tags) = set_order (tagged_runtime empty_title_tags)"
    by (simp add: tagged_runtime_def)
  from empty_required_field_is_missing [OF song_supported empty_title_metadata h3 h4 h5 h6]
  have "process_file (tagged_runtime untitled_tags) scenario_config song_path =
       process_file (tagged_runtime empty_title_tags) scenario_config song_path" by blast
  with song_supported empty_title_metadata untitled_metadata h3 show ?thesis by simp
qed

lemma sanitize_fields_flag:
  "sanitize_fields md fs (sm, d, w) = (sm', d', w') \<Longrightarrow> (w \<longleftrightarrow> d \<noteq> []) \<Longrightarrow> (w' \<longleftrightarrow> d' \<noteq> [])"
proof (induction fs arbitrary: sm d w)
  case Nil
  then show ?case by auto
next
  case (Cons f fs)
  show ?case
  proof (cases "truthy (md_get md f)")
    case False
    with Cons.prems have "sanitize_fields md fs (md_set sm f (md_get md f), d, w) = (sm', d', w')"
      by simp
    from Cons.IH [OF this Cons.prems(2)] show ?thesis .
  next
    case True
    obtain s c where sc: "sanitize (md_get md f) = (s, c)" by (cases "sanitize (md_get md f)")
    show ?thesis
    proof (cases c)
      case True
      with \<open>truthy (md_get md f)\<close> sc Cons.prems
      have "sanitize_fields md fs (md_set sm f s, d @ [(f, md_get md f, s)], True) = (sm', d', w')"
        by simp
      from Cons.IH [OF this] show ?thesis by simp
    next
      case False
      with \<open>truthy (md_get md f)\<close> sc Cons.prems
      have "sanitize_fields md fs (md_set sm f s, d, w) = (sm', d', w')"
        by simp
      from Cons.IH [OF this Cons.prems(2)] show ?thesis .
    qed
  qed
qed

lemma py_format_default:
  "py_format [(u ''artist'', a), (u ''album'', b), (u ''track'', t), (u ''title'', c)]
      (u ''{title} _ {artist}'') = Inr (c @ u '' _ '' @ a)"
  by (simp add: u_def format_field_def)

lemma generate_default:
  "generate_new_filename rt default_config md ext =
     Inr (or_empty (title md) @ u '' _ '' @ or_empty (artist md) @ ext)"
  by (simp add: generate_new_filename_def default_config_def py_format_default Let_def
      choose_format_def format_kwargs_def)

text \<open>With the templates of the source no file makes the pipeline raise.\<close>

lemma process_file_default_returns: "\<exists>r. process_file rt default_config filepath = Inr r"
  by (simp add: process_file_def Let_def generate_default split: option.splits prod.splits)

text \<open>
  C9.  Every result that the pipeline returns is a success with a new name and no reason,
  or a failure with a reason and no new name; and it is flagged as sanitized exactly when
  its sanitize details are not empty.
\<close>

theorem process_file_invariant:
  assumes "process_file rt cfg filepath = Inr r"
  shows "(success r \<longleftrightarrow> new_name r \<noteq> None) \<and> (success r \<longleftrightarrow> reason r = None)
       \<and> (was_sanitized r \<longleftrightarrow> sanitize_details r \<noteq> [])"
proof -
  let ?ext = "lower (name_suffix (path_name filepath))"
  show ?thesis
  proof (cases "?ext \<in> set SUPPORTED_EXTENSIONS")
    case False
    with assms have "r = failed_result filepath (u ''Unsupported format'')"
      by (simp add: process_file_def Let_def)
    then show ?thesis by (simp add: failed_result_def)
  next
    case sup: True
    show ?thesis
    proof (cases "get_metadata rt filepath")
      case None
      with sup assms have "r = failed_result filepath (u ''Could not read metadata'')"
        by (simp add: process_file_def Let_def)
      then show ?thesis by (simp add: failed_result_def)
    next
      case (Some md)
      show ?thesis
      proof (cases "missing_fields rt cfg md = []")
        case False
        with sup Some assms have "\<exists>w. r = failed_result filepath w"
          by (auto simp add: process_file_def Let_def)
        then show ?thesis by (auto simp add: failed_result_def)
      next
        case True
        obtain sm d w where sf: "sanitize_fields md [Artist, Album, Title]
                         (\<lparr>artist = None, album = None, track_number = None, title = None\<rparr>,
                          [], False) = (sm, d, w)" by (metis prod_cases3)
        from sanitize_fields_flag [OF sf] have wd: "w \<longleftrightarrow> d \<noteq> []" by simp
        from sup Some True sf assms obtain name where
          "r = \<lparr>original_path = filepath, new_name = Some name, success = True,
                             reason = None, was_sanitized = w,
                             sanitize_details = d\<rparr>"
          by (auto simp add: process_file_def Let_def split: sum.splits)
        with wd show ?thesis by simp
      qed
    qed
  qed
qed

lemma scenario_missing:
  "missing_fields rt scenario_config
     \<lparr>artist = Some (u ''AC/DC''), album = None, track_number = t, title = Some (u ''T.N.T'')\<rparr> = []"
proof -
  have "set (missing_fields rt scenario_config
     \<lparr>artist = Some (u ''AC/DC''), album = None, track_number = t, title = Some (u ''T.N.T'')\<rparr>) = {}"
    unfolding set_missing_fields scenario_required by (auto simp: u_def)
  then show ?thesis by simp
qed

lemma scenario_sanitize_fields:
  "sanitize_fields
     \<lparr>artist = Some (u ''AC/DC''), album = None, track_number = t, title = Some (u ''T.N.T'')\<rparr>
     [Artist, Album, Title]
     (\<lparr>artist = None, album = None, track_number = None, title = None\<rparr>, [], False) =
   (\<lparr>artist = Some (u ''AC-DC''), album = None, track_number = None, title = Some (u ''T.N.T'')\<rparr>,
    [(Artist, Some (u ''AC/DC''), Some (u ''AC-DC''))], True)"
proof -
  have n: "u ''AC/DC'' \<noteq> []" "u ''T.N.T'' \<noteq> []" by (simp_all add: u_def)
  show ?thesis by (simp add: n sanitize_ACDC sanitize_TNT)
qed

lemma scenario_process:
  "process_file (tagged_runtime scenario_tags) scenario_config song_path =
     Inr \<lparr>original_path = song_path, new_name = Some (u ''03 T.N.T _ AC-DC.mp3''),
          success = True, reason = None, was_sanitized = True,
          sanitize_details = [(Artist, Some (u ''AC/DC''), Some (u ''AC-DC''))]\<rparr>"
  by (simp add: process_file_def song_extension song_supported [unfolded song_extension]
      scenario_metadata scenario_missing scenario_sanitize_fields scenario_generate Let_def
      del: sanitize_fields.simps)

theorem process_file_invariant_witness:
  "process_file (tagged_runtime scenario_tags) scenario_config song_path =
     Inr \<lparr>original_path = song_path, new_name = Some (u ''03 T.N.T _ AC-DC.mp3''),
          success = True, reason = None, was_sanitized = True,
          sanitize_details = [(Artist, Some (u ''AC/DC''), Some (u ''AC-DC''))]\<rparr>
   \<and> [(Artist, Some (u ''AC/DC''), Some (u ''AC-DC''))] \<noteq> []"
  using process_file_invariant [OF scenario_process] scenario_process by simp

lemma digits_nonempty: "digits n \<noteq> []"
  by (subst digits.simps) simp

lemma format_02d_nonempty: "format_02d i \<noteq> []"
  by (simp add: format_02d_def digits_nonempty)

lemma truthy_pad_track: "truthy (pad_track rt track) \<longleftrightarrow> truthy track"
  by (simp add: pad_track_def format_02d_nonempty split: option.splits)

text \<open>
  C5.  A padded track value exists exactly when the tags have a non-empty track number.
  The filename is the expansion of the primary template when such a value exists and the
  primary template contains the track placeholder, and of the no-track template otherwise.
  For tags without a track number it is therefore the no-track template expanded with an
  empty track value, also when the primary template contains the placeholder.
\<close>

theorem template_selection:
  "(truthy (pad_track rt (track_number md)) \<longleftrightarrow> truthy (track_number md))
   \<and> generate_new_filename rt cfg md ext =
       (case py_format (format_kwargs md (pad_track rt (track_number md)))
               (if truthy (track_number md) \<and> contains (FILENAME_FORMAT cfg) (u ''{track}'')
                then FILENAME_FORMAT cfg else FILENAME_FORMAT_NO_TRACK cfg) of
          Inl e \<Rightarrow> Inl e
        | Inr name \<Rightarrow> Inr (name @ ext))
   \<and> (\<not> truthy (track_number md) \<longrightarrow>
        generate_new_filename rt cfg md ext =
          (case py_format
                  [(u ''artist'', or_empty (artist md)), (u ''album'', or_empty (album md)),
                   (u ''track'', []), (u ''title'', or_empty (title md))]
                  (FILENAME_FORMAT_NO_TRACK cfg) of
             Inl e \<Rightarrow> Inl e
           | Inr name \<Rightarrow> Inr (name @ ext)))"
proof (intro conjI impI)
  show "truthy (pad_track rt (track_number md)) \<longleftrightarrow> truthy (track_number md)"
    by (rule truthy_pad_track)
  show "generate_new_filename rt cfg md ext =
       (case py_format (format_kwargs md (pad_track rt (track_number md)))
               (if truthy (track_number md) \<and> contains (FILENAME_FORMAT cfg) (u ''{track}'')
                then FILENAME_FORMAT cfg else FILENAME_FORMAT_NO_TRACK cfg) of
          Inl e \<Rightarrow> Inl e
        | Inr name \<Rightarrow> Inr (name @ ext))"
    by (simp add: generate_new_filename_def choose_format_def truthy_pad_track Let_def)
next
  assume n: "\<not> truthy (track_number md)"
  then have p: "pad_track rt (track_number md) = None" by (simp add: pad_track_def)
  show "generate_new_filename rt cfg md ext =
          (case py_format
                  [(u ''artist'', or_empty (artist md)), (u ''album'', or_empty (album md)),
                   (u ''track'', []), (u ''title'', or_empty (title md))]
                  (FILENAME_FORMAT_NO_TRACK cfg) of
             Inl e \<Rightarrow> Inl e
           | Inr name \<Rightarrow> Inr (name @ ext))"
    by (simp add: generate_new_filename_def choose_format_def format_kwargs_def p Let_def)
qed

theorem template_selection_witness:
  "\<not> truthy (track_number \<lparr>artist = Some (u ''AC-DC''), album = None, track_number = None,
                           title = Some (u ''T.N.T'')\<rparr>)
   \<and> contains (FILENAME_FORMAT scenario_config) (u ''{track}'')
   \<and> generate_new_filename (tagged_runtime trackless_tags) scenario_config
       \<lparr>artist = Some (u ''AC-DC''), album = None, track_number = None,
        title = Some (u ''T.N.T'')\<rparr> (u ''.mp3'') = Inr (u ''T.N.T _ AC-DC.mp3'')"
proof -
  let ?md = "\<lparr>artist = Some (u ''AC-DC''), album = None, track_number = None,
              title = Some (u ''T.N.T'')\<rparr>"
  have n: "\<not> truthy (track_number ?md)" by simp
  have f: "py_format
             [(u ''artist'', or_empty (artist ?md)), (u ''album'', or_empty (album ?md)),
              (u ''track'', []), (u ''title'', or_empty (title ?md))]
             (FILENAME_FORMAT_NO_TRACK scenario_config) = Inr (u ''T.N.T _ AC-DC'')"
    by (simp add: scenario_config_def u_def format_field_def)
  from template_selection [of "tagged_runtime trackless_tags" ?md scenario_config "u ''.mp3''"] n
  have "generate_new_filename (tagged_runtime trackless_tags) scenario_config ?md (u ''.mp3'') =
          (case py_format
                  [(u ''artist'', or_empty (artist ?md)), (u ''album'', or_empty (album ?md)),
                   (u ''track'', []), (u ''title'', or_empty (title ?md))]
                  (FILENAME_FORMAT_NO_TRACK scenario_config) of
             Inl e \<Rightarrow> Inl e
           | Inr name \<Rightarrow> Inr (name @ u ''.mp3''))"
    by blast
  then have "generate_new_filename (tagged_runtime trackless_tags) scenario_config ?md (u ''.mp3'')
      = Inr (u ''T.N.T _ AC-DC.mp3'')"
    unfolding f by (simp add: u_def)
  with n scenario_track_placeholder show ?thesis by blast
qed

section \<open>Properties of the scanner\<close>

lemma dedupe_keys:
  "distinct (map (cparts rt) (dedupe rt seen ps))
   \<and> set (map (cparts rt) (dedupe rt seen ps)) \<inter> set seen = {}"
proof (induction ps arbitrary: seen)
  case Nil
  show ?case by simp
next
  case (Cons p ps)
  show ?case
  proof (cases "cparts rt p \<in> set seen")
    case True
    with Cons.IH [of seen] show ?thesis by simp
  next
    case False
    with Cons.IH [of "cparts rt p # seen"] show ?thesis by auto
  qed
qed

lemma strict_sort_key:
  assumes "distinct (map f xs)"
  shows "sorted_wrt (\<lambda>p q. f p < f q) (sort_key f xs)"
proof -
  from assms have "distinct xs" and "inj_on f (set xs)" by (simp_all add: distinct_map)
  then have "distinct (map f (sort_key f xs))" by (simp add: distinct_map)
  moreover have "sorted (map f (sort_key f xs))" by (rule sorted_sort_key)
  ultimately have "sorted_wrt (<) (map f (sort_key f xs))" by (simp add: strict_sorted_iff)
  then show ?thesis by (simp add: sorted_wrt_map)
qed

text \<open>
  C7.  On a platform that matches names case-sensitively the scanner does not find a file
  whose extension mixes upper and lower case, although the pipeline's own test of the
  extension, which lowers it first, accepts that file.
\<close>

theorem scan_misses_mixed_case:
  "lower (name_suffix (path_name [u ''music'', u ''song.Mp3''])) \<in> set SUPPORTED_EXTENSIONS
   \<and> find_audio_files (tagged_runtime scenario_tags) mixed_case_fs [u ''music''] = []"
proof
  show "lower (name_suffix (path_name [u ''music'', u ''song.Mp3''])) \<in> set SUPPORTED_EXTENSIONS"
    by (simp add: path_name_def name_suffix_def lower_def SUPPORTED_EXTENSIONS_def u_def Let_def)
  have c: "concat (map (\<lambda>ext. rglob (tagged_runtime scenario_tags) mixed_case_fs
                       [u ''music''] (42 # ext) @
                      rglob (tagged_runtime scenario_tags) mixed_case_fs
                       [u ''music''] (42 # upper ext))
            SUPPORTED_EXTENSIONS) = []"
    by (simp add: rglob_def mixed_case_fs_def tagged_runtime_def posix_fnmatch_def
        path_name_def SUPPORTED_EXTENSIONS_def upper_def u_def suffix_to_prefix)
  show "find_audio_files (tagged_runtime scenario_tags) mixed_case_fs [u ''music''] = []"
    unfolding find_audio_files_def Let_def c by simp
qed

text \<open>
  C8, as stated, fails: a file in a subdirectory comes before a file of the directory whose
  name continues the subdirectory's name with a character below the separator, although the
  string of the second path is the smaller one.
\<close>

theorem scan_order_counterexample:
  "find_audio_files (tagged_runtime scenario_tags) nested_fs [u ''music''] =
     [[u ''music'', u ''a'', u ''z.mp3''], [u ''music'', u ''a-b.mp3'']]
   \<and> path_str [u ''music'', u ''a-b.mp3''] < path_str [u ''music'', u ''a'', u ''z.mp3'']"
proof
  have c: "concat (map (\<lambda>ext. rglob (tagged_runtime scenario_tags) nested_fs
                       [u ''music''] (42 # ext) @
                      rglob (tagged_runtime scenario_tags) nested_fs
                       [u ''music''] (42 # upper ext))
            SUPPORTED_EXTENSIONS) =
           [[u ''music'', u ''a'', u ''z.mp3''], [u ''music'', u ''a-b.mp3'']]"
    by (simp add: rglob_def nested_fs_def tagged_runtime_def posix_fnmatch_def
        path_name_def SUPPORTED_EXTENSIONS_def upper_def u_def suffix_to_prefix
        reachable_def is_dir_def lookup_def)
  show "find_audio_files (tagged_runtime scenario_tags) nested_fs [u ''music''] =
     [[u ''music'', u ''a'', u ''z.mp3''], [u ''music'', u ''a-b.mp3'']]"
    unfolding find_audio_files_def Let_def c
    by (simp add: cparts_def tagged_runtime_def u_def)
  show "path_str [u ''music'', u ''a-b.mp3''] < path_str [u ''music'', u ''a'', u ''z.mp3'']"
    by (simp add: path_str_def u_def)
qed

text \<open>
  C8, amended.  The scanner's output is strictly ascending in the list order on the
  case-folded components of the paths, each component compared as a string; being a
  function of the directory's content, it is the same on every run over unchanged input.
\<close>

theorem scan_order:
  "sorted_wrt (\<lambda>p q. cparts rt p < cparts rt q) (find_audio_files rt fs dir_path)"
  unfolding find_audio_files_def Let_def
  by (rule strict_sort_key) (simp add: dedupe_keys)

section \<open>Properties of the executor\<close>

lemma map_of_filter_other:
  "q \<noteq> p \<Longrightarrow> map_of (filter (\<lambda>(k, v). k \<noteq> p) fs) q = map_of fs q"
  by (induction fs) auto

lemma lookup_put:
  "lookup (put fs p n) q = (if q = [] then Some Dir else if q = p then Some n else lookup fs q)"
  by (simp add: lookup_def put_def map_of_filter_other)

lemma only_adds_refl: "only_adds dir fs fs"
  by (simp add: only_adds_def)

lemma only_adds_trans:
  assumes "only_adds dir fs fs'" and "only_adds dir fs' fs''"
  shows "only_adds dir fs fs''"
  unfolding only_adds_def
proof
  fix p
  from assms(1) have a: "lookup fs' p = lookup fs p
     \<or> (lookup fs p = None \<and> (prefix dir p \<or> (prefix p dir \<and> lookup fs' p = Some Dir)))"
    by (simp add: only_adds_def)
  from assms(2) have b: "lookup fs'' p = lookup fs' p
     \<or> (lookup fs' p = None \<and> (prefix dir p \<or> (prefix p dir \<and> lookup fs'' p = Some Dir)))"
    by (simp add: only_adds_def)
  from a b show "lookup fs'' p = lookup fs p
     \<or> (lookup fs p = None \<and> (prefix dir p \<or> (prefix p dir \<and> lookup fs'' p = Some Dir)))"
    by auto
qed

lemma not_exists_lookup: "\<not> exists fs p \<Longrightarrow> lookup fs p = None \<and> p \<noteq> []"
  by (auto simp: exists_def lookup_def)

lemma only_adds_put_below:
  assumes "\<not> exists fs p" and "prefix dir p"
  shows "only_adds dir fs (put fs p n)"
  unfolding only_adds_def
proof
  fix q
  from assms(1) have "lookup fs p = None" "p \<noteq> []" by (simp_all add: not_exists_lookup)
  with assms(2) show "lookup (put fs p n) q = lookup fs q
     \<or> (lookup fs q = None \<and> (prefix dir q \<or> (prefix q dir \<and> lookup (put fs p n) q = Some Dir)))"
    by (cases "q = p") (auto simp: lookup_put, simp add: lookup_def)
qed

lemma only_adds_put_dir_above:
  assumes "\<not> exists fs p" and "prefix p dir"
  shows "only_adds dir fs (put fs p Dir)"
  unfolding only_adds_def
proof
  fix q
  from assms(1) have "lookup fs p = None" "p \<noteq> []" by (simp_all add: not_exists_lookup)
  with assms(2) show "lookup (put fs p Dir) q = lookup fs q
     \<or> (lookup fs q = None \<and> (prefix dir q \<or> (prefix q dir \<and> lookup (put fs p Dir) q = Some Dir)))"
    by (cases "q = p") (auto simp: lookup_put, simp add: lookup_def)
qed

lemma only_adds_deeper:
  assumes "only_adds (dir @ [x]) fs fs'"
  shows "only_adds dir fs fs'"
  unfolding only_adds_def
proof
  fix p
  from assms have "lookup fs' p = lookup fs p
     \<or> (lookup fs p = None \<and>
         (prefix (dir @ [x]) p \<or> (prefix p (dir @ [x]) \<and> lookup fs' p = Some Dir)))"
    by (simp add: only_adds_def)
  moreover have "prefix dir p" if "prefix (dir @ [x]) p"
    using that by (rule append_prefixD)
  moreover have "prefix dir p \<or> prefix p dir" if "prefix p (dir @ [x])"
    using that by (auto simp: prefix_snoc)
  ultimately show "lookup fs' p = lookup fs p
     \<or> (lookup fs p = None \<and> (prefix dir p \<or> (prefix p dir \<and> lookup fs' p = Some Dir)))"
    by blast
qed

text \<open>The probing loop.\<close>

lemma probe_free: "\<not> exists fs (probe fs dir base ext dest_path counter)"
proof (induction fs dir base ext dest_path counter rule: probe.induct)
  case (1 fs dir base ext dest_path counter)
  show ?case
  proof (cases "exists fs dest_path")
    case True
    with 1 show ?thesis by (subst probe.simps) simp
  next
    case False
    then show ?thesis by (subst probe.simps) simp
  qed
qed

lemma joinpath_numbered: "joinpath dir (numbered base ext k) = dir @ [numbered base ext k]"
  by (simp add: joinpath_def numbered_nonempty)

lemma probe_first_free:
  "exists fs dest_path \<Longrightarrow>
   \<exists>k\<ge>counter. probe fs dir base ext dest_path counter = joinpath dir (numbered base ext k)
       \<and> \<not> exists fs (joinpath dir (numbered base ext k))
       \<and> (\<forall>j. counter \<le> j \<and> j < k \<longrightarrow> exists fs (joinpath dir (numbered base ext j)))"
proof (induction fs dir base ext dest_path counter rule: probe.induct)
  case (1 fs dir base ext dest_path counter)
  let ?c = "joinpath dir (numbered base ext counter)"
  from "1.prems" have step: "probe fs dir base ext dest_path counter
      = probe fs dir base ext ?c (counter + 1)"
    by (subst probe.simps) simp
  show ?case
  proof (cases "exists fs ?c")
    case False
    then have "probe fs dir base ext ?c (counter + 1) = ?c" by (subst probe.simps) simp
    with step False show ?thesis by (intro exI [of _ counter]) auto
  next
    case True
    from "1.IH" [OF "1.prems" True] obtain k where k: "counter + 1 \<le> k"
      and r: "probe fs dir base ext ?c (counter + 1) = joinpath dir (numbered base ext k)"
      and f: "\<not> exists fs (joinpath dir (numbered base ext k))"
      and b: "\<forall>j. counter + 1 \<le> j \<and> j < k \<longrightarrow> exists fs (joinpath dir (numbered base ext j))"
      by blast
    have "\<forall>j. counter \<le> j \<and> j < k \<longrightarrow> exists fs (joinpath dir (numbered base ext j))"
    proof (intro allI impI)
      fix j assume j: "counter \<le> j \<and> j < k"
      show "exists fs (joinpath dir (numbered base ext j))"
      proof (cases "j = counter")
        case True
        with \<open>exists fs ?c\<close> show ?thesis by simp
      next
        case False
        with j b show ?thesis by simp
      qed
    qed
    with k r f step show ?thesis by (intro exI [of _ k]) simp
  qed
qed

lemma resolve_collision_free: "\<not> exists fs (resolve_collision fs dir dest_path)"
  by (simp add: resolve_collision_def probe_free)

lemma resolve_collision_below:
  "prefix dir (resolve_collision fs dir (joinpath dir name))"
proof (cases "exists fs (joinpath dir name)")
  case False
  then show ?thesis by (simp add: resolve_collision_def joinpath_def)
next
  case True
  from probe_first_free [OF True] obtain k where
    "probe fs dir (name_stem (path_name (joinpath dir name)))
        (name_suffix (path_name (joinpath dir name))) (joinpath dir name) 1
     = joinpath dir (numbered (name_stem (path_name (joinpath dir name)))
        (name_suffix (path_name (joinpath dir name))) k)"
    by blast
  with True show ?thesis by (simp add: resolve_collision_def joinpath_numbered)
qed

text \<open>One copy.\<close>

lemma copy2_only_adds:
  assumes "\<not> exists fs dst" and "prefix dir dst"
  shows "only_adds dir fs (snd (copy2 fs ev src dst))"
proof -
  from assms(1) have nd: "\<not> is_dir fs dst" by (simp add: exists_def is_dir_def)
  have p: "only_adds dir fs (put fs dst n)" for n
    using assms by (rule only_adds_put_below)
  show ?thesis
    by (simp add: copy2_def nd only_adds_refl p Let_def
        split: option.splits node.splits io.splits)
qed

lemma py_print_fs: "st_fs (snd (py_print st m)) = st_fs st"
  by (cases "st_tty st"; cases "hd (st_tty st)") (auto simp: py_print_def)

lemma py_print_fsD: "py_print st m = (raised, st') \<Longrightarrow> st_fs st' = st_fs st"
  using py_print_fs [of st m] by simp

lemma record_error_fs: "st_fs (record_error name e st) = st_fs st"
  by (simp add: record_error_def)

lemma and_then_only_adds:
  assumes "only_adds dir fs (st_fs (snd run))"
    and "\<And>st. only_adds dir (st_fs st) (st_fs (snd (f st)))"
  shows "only_adds dir fs (st_fs (snd (and_then run f)))"
proof (cases run)
  case (Pair raised st)
  show ?thesis
  proof (cases raised)
    case None
    from assms(1) Pair have "only_adds dir fs (st_fs st)" by simp
    then have "only_adds dir fs (st_fs (snd (f st)))" using assms(2) by (rule only_adds_trans)
    with Pair None show ?thesis by simp
  next
    case (Some e)
    with assms(1) Pair show ?thesis by simp
  qed
qed

lemma copy_successful_fs:
  "st_fs (snd (copy_successful output_path st result)) = st_fs st
   \<or> (\<exists>name ev. st_fs (snd (copy_successful output_path st result)) =
         snd (copy2 (st_fs st) ev (original_path result)
                (resolve_collision (st_fs st) output_path (joinpath output_path name))))"
proof (cases "new_name result")
  case None
  then show ?thesis by (simp add: copy_successful_def)
next
  case (Some name)
  let ?dest = "resolve_collision (st_fs st) output_path (joinpath output_path name)"
  let ?p = "if exists (st_fs st) (joinpath output_path name)
            then py_print st (Collision name (path_name ?dest)) else (None, st)"
  obtain raised1 st1 where p: "?p = (raised1, st1)" by (cases ?p)
  have fs1: "st_fs st1 = st_fs st"
    using p py_print_fs [of st "Collision name (path_name ?dest)"]
    by (auto split: if_splits)
  show ?thesis
  proof (cases raised1)
    case (Some e)
    with \<open>new_name result = Some name\<close> p fs1 show ?thesis
      by (simp add: copy_successful_def Let_def record_error_fs)
  next
    case None
    obtain ev rest where io: "next_io (st_io st1) = (ev, rest)" by (cases "next_io (st_io st1)")
    obtain raised2 fs' where c: "copy2 (st_fs st) ev (original_path result) ?dest = (raised2, fs')"
      by (cases "copy2 (st_fs st) ev (original_path result) ?dest")
    have "st_fs (snd (copy_successful output_path st result)) = fs'"
      using \<open>new_name result = Some name\<close> p None io c fs1
      by (auto simp: copy_successful_def Let_def record_error_fs
          split: option.splits prod.splits dest: py_print_fsD)
    with c have "st_fs (snd (copy_successful output_path st result)) =
         snd (copy2 (st_fs st) ev (original_path result) ?dest)" by simp
    then show ?thesis by blast
  qed
qed

lemma copy_successful_only_adds:
  "only_adds output_path (st_fs st) (st_fs (snd (copy_successful output_path st result)))"
proof -
  have "only_adds output_path (st_fs st)
          (snd (copy2 (st_fs st) ev (original_path result)
                  (resolve_collision (st_fs st) output_path (joinpath output_path name))))"
    for name ev
    by (rule copy2_only_adds) (rule resolve_collision_free, rule resolve_collision_below)
  with copy_successful_fs [of output_path st result] show ?thesis
    by (auto simp: only_adds_refl)
qed

lemma copy_failed_fs:
  "\<exists>ev. st_fs (copy_failed failed_path st result) =
     snd (copy2 (st_fs st) ev (original_path result)
            (resolve_collision (st_fs st) failed_path
               (joinpath failed_path (path_name (original_path result)))))"
proof -
  let ?dest = "resolve_collision (st_fs st) failed_path
                 (joinpath failed_path (path_name (original_path result)))"
  obtain ev rest where io: "next_io (st_io st) = (ev, rest)" by (cases "next_io (st_io st)")
  obtain raised fs' where c: "copy2 (st_fs st) ev (original_path result) ?dest = (raised, fs')"
    by (cases "copy2 (st_fs st) ev (original_path result) ?dest")
  have "st_fs (copy_failed failed_path st result) = fs'"
    using io c
    by (auto simp: copy_failed_def Let_def record_error_fs
        split: option.splits prod.splits dest: py_print_fsD)
  with c have "st_fs (copy_failed failed_path st result) =
     snd (copy2 (st_fs st) ev (original_path result) ?dest)" by simp
  then show ?thesis ..
qed

lemma copy_failed_only_adds:
  "only_adds failed_path (st_fs st) (st_fs (copy_failed failed_path st result))"
proof -
  have "only_adds failed_path (st_fs st)
          (snd (copy2 (st_fs st) ev (original_path result)
                  (resolve_collision (st_fs st) failed_path
                     (joinpath failed_path (path_name (original_path result))))))"
    for ev
    by (rule copy2_only_adds) (rule resolve_collision_free, rule resolve_collision_below)
  with copy_failed_fs [of failed_path st result] show ?thesis by auto
qed

lemma copy_all_successful_only_adds:
  "only_adds output_path (st_fs st) (st_fs (snd (copy_all_successful output_path st results)))"
proof (induction results arbitrary: st)
  case Nil
  show ?case by (simp add: only_adds_refl)
next
  case (Cons result rest)
  have "only_adds output_path (st_fs st)
          (st_fs (snd (and_then (copy_successful output_path st result)
                         (\<lambda>st. copy_all_successful output_path st rest))))"
    by (rule and_then_only_adds) (rule copy_successful_only_adds, rule Cons.IH)
  then show ?case by simp
qed

lemma copy_all_failed_only_adds:
  "only_adds failed_path (st_fs st) (st_fs (copy_all_failed failed_path st results))"
proof (induction results arbitrary: st)
  case Nil
  show ?case by (simp add: only_adds_refl)
next
  case (Cons result rest)
  from copy_failed_only_adds [of failed_path st result]
    Cons.IH [of "copy_failed failed_path st result"]
  have "only_adds failed_path (st_fs st)
          (st_fs (copy_all_failed failed_path (copy_failed failed_path st result) rest))"
    by (rule only_adds_trans)
  then show ?case by simp
qed

lemma print_all_fs: "st_fs (snd (print_all ms st)) = st_fs st"
proof (induction ms arbitrary: st)
  case Nil
  show ?case by simp
next
  case (Cons m ms)
  obtain raised st' where p: "py_print st m = (raised, st')" by (cases "py_print st m")
  with py_print_fs [of st m] have "st_fs st' = st_fs st" by simp
  with p Cons.IH [of st'] show ?case by (cases raised) simp_all
qed

text \<open>Creating directories.\<close>

lemma mkdir_fold_only_adds:
  "\<forall>q \<in> set qs. prefix q dir \<Longrightarrow>
   only_adds dir fs (fold (\<lambda>q fs. if exists fs q then fs else put fs q Dir) qs fs)"
proof (induction qs arbitrary: fs)
  case Nil
  show ?case by (simp add: only_adds_refl)
next
  case (Cons q qs)
  let ?fs1 = "if exists fs q then fs else put fs q Dir"
  have "only_adds dir fs ?fs1"
    using Cons.prems by (simp add: only_adds_refl only_adds_put_dir_above)
  moreover have "only_adds dir ?fs1 (fold (\<lambda>q fs. if exists fs q then fs else put fs q Dir) qs ?fs1)"
    by (rule Cons.IH) (use Cons.prems in simp)
  ultimately have "only_adds dir fs (fold (\<lambda>q fs. if exists fs q then fs else put fs q Dir) qs ?fs1)"
    by (rule only_adds_trans)
  then show ?case by simp
qed

lemma mkdir_parents_only_adds:
  "mkdir_parents fs p = Inr fs' \<Longrightarrow> only_adds p fs fs'"
  using mkdir_fold_only_adds [of "prefixes p" p fs]
  by (auto simp: mkdir_parents_def in_set_prefixes split: if_splits)

lemma create_missing_only_adds:
  "only_adds p (st_fs st) (st_fs (snd (create_missing p m st)))"
proof (cases "exists (st_fs st) p")
  case True
  then show ?thesis by (simp add: create_missing_def only_adds_refl)
next
  case False
  show ?thesis
  proof (cases "mkdir_parents (st_fs st) p")
    case (Inl e)
    with False show ?thesis by (simp add: create_missing_def only_adds_refl)
  next
    case (Inr fs')
    then have "only_adds p (st_fs st) fs'" by (rule mkdir_parents_only_adds)
    with False Inr show ?thesis by (simp add: create_missing_def py_print_fs)
  qed
qed

lemma execute_only_adds:
  "only_adds output_path fs
     (st_fs (snd (execute_copy_rename fs evs tty successful failed output_path)))"
proof -
  let ?fp = "joinpath output_path (u ''_failed'')"
  have fp: "?fp = output_path @ [u ''_failed'']" by (simp add: joinpath_def u_def)
  let ?r1 = "create_missing output_path (Created_output output_path) (initial_state fs evs tty)"
  let ?f2 = "\<lambda>st. if failed \<noteq> [] then create_missing ?fp (Created_failed ?fp) st else (None, st)"
  let ?f3 = "\<lambda>st. py_print st Copying_header"
  let ?f4 = "\<lambda>st. copy_all_successful output_path st successful"
  let ?f5 = "\<lambda>st. if failed \<noteq> []
                 then and_then (py_print st Failed_header)
                        (\<lambda>st. (None, copy_all_failed ?fp st failed))
                 else (None, st)"
  let ?f6 = "\<lambda>st. print_all (summary st) st"
  have below: "only_adds output_path a b" if "only_adds ?fp a b" for a b
    using that unfolding fp by (rule only_adds_deeper)
  have 1: "only_adds output_path fs (st_fs (snd ?r1))"
    using create_missing_only_adds [of output_path "initial_state fs evs tty"]
    by (simp add: initial_state_def)
  have 2: "only_adds output_path (st_fs st) (st_fs (snd (?f2 st)))" for st
    by (simp add: only_adds_refl below create_missing_only_adds)
  have 3: "only_adds output_path (st_fs st) (st_fs (snd (?f3 st)))" for st
    by (simp add: py_print_fs only_adds_refl)
  have 4: "only_adds output_path (st_fs st) (st_fs (snd (?f4 st)))" for st
    by (rule copy_all_successful_only_adds)
  have 5: "only_adds output_path (st_fs st) (st_fs (snd (?f5 st)))" for st
  proof (cases "failed = []")
    case True
    then show ?thesis by (simp add: only_adds_refl)
  next
    case False
    have "only_adds output_path (st_fs st)
            (st_fs (snd (and_then (py_print st Failed_header)
                           (\<lambda>st. (None, copy_all_failed ?fp st failed)))))"
      by (rule and_then_only_adds)
         (simp_all add: py_print_fs only_adds_refl below copy_all_failed_only_adds)
    with False show ?thesis by simp
  qed
  have 6: "only_adds output_path (st_fs st) (st_fs (snd (?f6 st)))" for st
    by (simp add: print_all_fs only_adds_refl)
  have "only_adds output_path fs
          (st_fs (snd (and_then (and_then (and_then (and_then (and_then ?r1 ?f2) ?f3) ?f4) ?f5) ?f6)))"
    by (intro and_then_only_adds 1 2 3 4 5 6)
  then show ?thesis by (simp add: execute_copy_rename_def Let_def)
qed

text \<open>
  C3.  Whatever the operating system does to the copies and the standard output to the
  prints, and whether the run ends normally or with an uncaught exception, every entry that
  the filesystem had before the run it has unchanged afterwards; in particular every file
  below the source root keeps its bytes.  What differs afterwards did not exist before, and
  lies below the output root or is a directory on the way to it: renaming is a copy to a
  new name there.
\<close>

theorem execute_preserves_sources:
  "(lookup fs p = Some n \<longrightarrow>
      lookup (st_fs (snd (execute_copy_rename fs evs tty successful failed output_path))) p
        = Some n)
   \<and> (lookup (st_fs (snd (execute_copy_rename fs evs tty successful failed output_path))) p
        \<noteq> lookup fs p \<longrightarrow>
      lookup fs p = None
      \<and> (prefix output_path p
         \<or> (prefix p output_path
            \<and> lookup (st_fs (snd (execute_copy_rename fs evs tty successful failed output_path))) p
                = Some Dir)))"
  using execute_only_adds [of output_path fs evs tty successful failed]
  unfolding only_adds_def by (metis option.distinct(1))

lemmas fs_eval = exists_def is_dir_def is_file_def lookup_def put_def joinpath_def path_name_def
  name_stem_def name_suffix_def numbered_def resolve_collision_def copy2_def Let_def

lemmas run_eval = execute_copy_rename_def initial_state_def create_missing_def mkdir_parents_def
  py_print_def record_error_def copy_successful_def copy_failed_def summary_def

lemma album_run:
  "st_fs (snd (execute_copy_rename album_fs [IoError (Some [9])]
          [None, None, Some UnicodeEncodeError]
          [renamed (u ''a.mp3''), renamed (u ''b.mp3'')]
          [failed_result [u ''music'', u ''notes.txt''] (u ''Unsupported format'')] [u ''music'']))
     = [([u ''music'', u ''_failed'', u ''notes.txt''], File [4]),
        ([u ''music'', u ''X.mp3''], File [9]),
        ([u ''music'', u ''_failed''], Dir),
        ([u ''music''], Dir),
        ([u ''music'', u ''a.mp3''], File [1]),
        ([u ''music'', u ''b.mp3''], File [2]),
        ([u ''music'', u ''c.mp3''], File [3]),
        ([u ''music'', u ''notes.txt''], File [4])]"
  "errors (snd (execute_copy_rename album_fs [IoError (Some [9])]
          [None, None, Some UnicodeEncodeError]
          [renamed (u ''a.mp3''), renamed (u ''b.mp3'')]
          [failed_result [u ''music'', u ''notes.txt''] (u ''Unsupported format'')] [u ''music'']))
     = [(u ''a.mp3'', OSError), (u ''b.mp3'', UnicodeEncodeError)]"
  by (simp_all add: run_eval album_fs_def renamed_def failed_result_def fs_eval
      probe.simps digits.simps u_def)

theorem execute_preserves_sources_witness:
  "lookup album_fs [u ''music'', u ''a.mp3''] = Some (File [1])
   \<and> lookup (st_fs (snd (execute_copy_rename album_fs [IoError (Some [9])]
          [None, None, Some UnicodeEncodeError]
          [renamed (u ''a.mp3''), renamed (u ''b.mp3'')]
          [failed_result [u ''music'', u ''notes.txt''] (u ''Unsupported format'')] [u ''music''])))
        [u ''music'', u ''a.mp3''] = Some (File [1])
   \<and> lookup album_fs [u ''music'', u ''X.mp3''] = None
   \<and> lookup (st_fs (snd (execute_copy_rename album_fs [IoError (Some [9])]
          [None, None, Some UnicodeEncodeError]
          [renamed (u ''a.mp3''), renamed (u ''b.mp3'')]
          [failed_result [u ''music'', u ''notes.txt''] (u ''Unsupported format'')] [u ''music''])))
        [u ''music'', u ''X.mp3''] = Some (File [9])
   \<and> prefix [u ''music''] [u ''music'', u ''X.mp3'']
   \<and> errors (snd (execute_copy_rename album_fs [IoError (Some [9])]
          [None, None, Some UnicodeEncodeError]
          [renamed (u ''a.mp3''), renamed (u ''b.mp3'')]
          [failed_result [u ''music'', u ''notes.txt''] (u ''Unsupported format'')] [u ''music'']))
       = [(u ''a.mp3'', OSError), (u ''b.mp3'', UnicodeEncodeError)]"
proof -
  let ?run = "execute_copy_rename album_fs [IoError (Some [9])]
          [None, None, Some UnicodeEncodeError]
          [renamed (u ''a.mp3''), renamed (u ''b.mp3'')]
          [failed_result [u ''music'', u ''notes.txt''] (u ''Unsupported format'')] [u ''music'']"
  have h1: "lookup album_fs [u ''music'', u ''a.mp3''] = Some (File [1])"
    by (simp add: lookup_def album_fs_def u_def)
  have h2: "lookup (st_fs (snd ?run)) [u ''music'', u ''X.mp3''] = Some (File [9])"
    by (simp add: album_run) (simp add: lookup_def u_def)
  have h3: "lookup album_fs [u ''music'', u ''X.mp3''] = None"
    by (simp add: lookup_def album_fs_def u_def)
  from execute_preserves_sources [of album_fs "[u ''music'', u ''a.mp3'']" "File [1]"
      "[IoError (Some [9])]" "[None, None, Some UnicodeEncodeError]"
      "[renamed (u ''a.mp3''), renamed (u ''b.mp3'')]"
      "[failed_result [u ''music'', u ''notes.txt''] (u ''Unsupported format'')]" "[u ''music'']"] h1
  have c1: "lookup (st_fs (snd ?run)) [u ''music'', u ''a.mp3''] = Some (File [1])"
    by blast
  from execute_preserves_sources [of album_fs "[u ''music'', u ''X.mp3'']" "File [1]"
      "[IoError (Some [9])]" "[None, None, Some UnicodeEncodeError]"
      "[renamed (u ''a.mp3''), renamed (u ''b.mp3'')]"
      "[failed_result [u ''music'', u ''notes.txt''] (u ''Unsupported format'')]" "[u ''music'']"] h2 h3
  have c2: "prefix [u ''music''] [u ''music'', u ''X.mp3'']
      \<or> (prefix [u ''music'', u ''X.mp3''] [u ''music'']
          \<and> lookup (st_fs (snd ?run)) [u ''music'', u ''X.mp3''] = Some Dir)"
    by simp
  with h2 have c3: "prefix [u ''music''] [u ''music'', u ''X.mp3'']" by auto
  from h1 c1 h3 h2 c3 album_run(2) show ?thesis by blast
qed

text \<open>The first free candidate.\<close>

lemma resolve_collision_first_free:
  "\<exists>k. resolve_collision fs dir dest_path = candidate dir dest_path k
       \<and> \<not> exists fs (candidate dir dest_path k)
       \<and> (\<forall>j<k. exists fs (candidate dir dest_path j))"
proof (cases "exists fs dest_path")
  case False
  then show ?thesis
    by (intro exI [of _ 0]) (simp add: resolve_collision_def candidate_def)
next
  case True
  let ?b = "name_stem (path_name dest_path)" and ?e = "name_suffix (path_name dest_path)"
  from probe_first_free [OF True, of 1 dir ?b ?e] obtain k where k: "1 \<le> k"
    and r: "probe fs dir ?b ?e dest_path 1 = joinpath dir (numbered ?b ?e k)"
    and f: "\<not> exists fs (joinpath dir (numbered ?b ?e k))"
    and b: "\<forall>j. 1 \<le> j \<and> j < k \<longrightarrow> exists fs (joinpath dir (numbered ?b ?e j))"
    by blast
  have "\<forall>j<k. exists fs (candidate dir dest_path j)"
  proof (intro allI impI)
    fix j assume "j < k"
    show "exists fs (candidate dir dest_path j)"
    proof (cases "j = 0")
      case True
      with \<open>exists fs dest_path\<close> show ?thesis by (simp add: candidate_def)
    next
      case False
      with b \<open>j < k\<close> show ?thesis by (simp add: candidate_def)
    qed
  qed
  with True k r f show ?thesis
    by (intro exI [of _ k]) (simp add: resolve_collision_def candidate_def)
qed

lemma lookup_root: "lookup fs [] = Some Dir"
  by (simp add: lookup_def)

lemma exists_put: "exists (put fs p n) q \<longleftrightarrow> q = [] \<or> q = p \<or> exists fs q"
  by (cases "q = []") (simp_all add: exists_def lookup_put lookup_root)

lemma is_dir_put: "q \<noteq> p \<Longrightarrow> is_dir (put fs p n) q = is_dir fs q"
  by (cases "q = []") (simp_all add: is_dir_def lookup_put lookup_root)

lemma resolve_collision_child:
  "name \<noteq> [] \<Longrightarrow> \<exists>x. resolve_collision fs dir (dir @ [name]) = dir @ [x]"
proof -
  assume "name \<noteq> []"
  obtain k where "resolve_collision fs dir (dir @ [name]) = candidate dir (dir @ [name]) k"
    using resolve_collision_first_free by blast
  then show ?thesis by (cases "k = 0") (simp_all add: candidate_def joinpath_numbered)
qed

lemma X_names:
  "name_stem (path_name (out @ [u ''X.mp3''])) = u ''X''"
  "name_suffix (path_name (out @ [u ''X.mp3''])) = u ''.mp3''"
  "numbered (u ''X'') (u ''.mp3'') 1 = u ''X (1).mp3''"
  "numbered (u ''X'') (u ''.mp3'') 2 = u ''X (2).mp3''"
  by (simp_all add: path_name_def name_stem_def name_suffix_def numbered_def digits.simps u_def
      Let_def)

lemma X_joins:
  "joinpath out (u ''X (1).mp3'') = out @ [u ''X (1).mp3'']"
  "joinpath out (u ''X (2).mp3'') = out @ [u ''X (2).mp3'']"
  by (simp_all add: joinpath_def u_def)

lemma resolve_X0:
  "\<not> exists fs (out @ [u ''X.mp3'']) \<Longrightarrow>
   resolve_collision fs out (out @ [u ''X.mp3'']) = out @ [u ''X.mp3'']"
  by (simp add: resolve_collision_def)

lemma probe_X_step1:
  assumes "exists fs dest_path"
  shows "probe fs out (u ''X'') (u ''.mp3'') dest_path 1
     = probe fs out (u ''X'') (u ''.mp3'') (out @ [u ''X (1).mp3'']) 2"
proof -
  have "probe fs out (u ''X'') (u ''.mp3'') dest_path 1
     = probe fs out (u ''X'') (u ''.mp3'') (joinpath out (numbered (u ''X'') (u ''.mp3'') 1)) (1 + 1)"
    by (subst probe.simps) (simp only: assms if_True)
  then show ?thesis by (simp only: X_names X_joins one_add_one)
qed

lemma probe_X_step2:
  assumes "exists fs dest_path"
  shows "probe fs out (u ''X'') (u ''.mp3'') dest_path 2
     = probe fs out (u ''X'') (u ''.mp3'') (out @ [u ''X (2).mp3'']) 3"
proof -
  have n: "(2::nat) + 1 = 3" by simp
  have "probe fs out (u ''X'') (u ''.mp3'') dest_path 2
     = probe fs out (u ''X'') (u ''.mp3'') (joinpath out (numbered (u ''X'') (u ''.mp3'') 2)) (2 + 1)"
    by (subst probe.simps) (simp only: assms if_True)
  then show ?thesis by (simp only: X_names X_joins n)
qed

lemma probe_free_here:
  "\<not> exists fs dest_path \<Longrightarrow> probe fs out base ext dest_path counter = dest_path"
  by (subst probe.simps) simp

lemma resolve_X1:
  assumes "exists fs (out @ [u ''X.mp3''])" and "\<not> exists fs (out @ [u ''X (1).mp3''])"
  shows "resolve_collision fs out (out @ [u ''X.mp3'']) = out @ [u ''X (1).mp3'']"
proof -
  have "resolve_collision fs out (out @ [u ''X.mp3''])
          = probe fs out (u ''X'') (u ''.mp3'') (out @ [u ''X.mp3'']) 1"
    using assms(1) by (simp add: resolve_collision_def X_names)
  also have "\<dots> = probe fs out (u ''X'') (u ''.mp3'') (out @ [u ''X (1).mp3'']) 2"
    using assms(1) by (rule probe_X_step1)
  also have "\<dots> = out @ [u ''X (1).mp3'']"
    using assms(2) by (rule probe_free_here)
  finally show ?thesis .
qed

lemma resolve_X2:
  assumes "exists fs (out @ [u ''X.mp3''])" and "exists fs (out @ [u ''X (1).mp3''])"
    and "\<not> exists fs (out @ [u ''X (2).mp3''])"
  shows "resolve_collision fs out (out @ [u ''X.mp3'']) = out @ [u ''X (2).mp3'']"
proof -
  have "resolve_collision fs out (out @ [u ''X.mp3''])
          = probe fs out (u ''X'') (u ''.mp3'') (out @ [u ''X.mp3'']) 1"
    using assms(1) by (simp add: resolve_collision_def X_names)
  also have "\<dots> = probe fs out (u ''X'') (u ''.mp3'') (out @ [u ''X (1).mp3'']) 2"
    using assms(1) by (rule probe_X_step1)
  also have "\<dots> = probe fs out (u ''X'') (u ''.mp3'') (out @ [u ''X (2).mp3'']) 3"
    using assms(2) by (rule probe_X_step2)
  also have "\<dots> = out @ [u ''X (2).mp3'']"
    using assms(3) by (rule probe_free_here)
  finally show ?thesis .
qed

lemma X_distinct:
  "u ''X (1).mp3'' \<noteq> u ''X.mp3''"
  "u ''X (2).mp3'' \<noteq> u ''X.mp3''"
  "u ''X (2).mp3'' \<noteq> u ''X (1).mp3''"
  "u ''X.mp3'' \<noteq> []"
  by (simp_all add: u_def)

lemma occupied_candidates:
  "exists occupied_fs (candidate [u ''music''] [u ''music'', u ''X.mp3''] 0)"
  "exists occupied_fs (candidate [u ''music''] [u ''music'', u ''X.mp3''] 1)"
  "\<not> exists occupied_fs (candidate [u ''music''] [u ''music'', u ''X.mp3''] 2)"
  "candidate [u ''music''] [u ''music'', u ''X.mp3''] 2 = [u ''music'', u ''X (2).mp3'']"
  by (simp_all add: candidate_def occupied_fs_def fs_eval digits.simps u_def)

text \<open>Runs in which every copy and every print goes through.\<close>

lemma py_print_quiet:
  "st_tty st = [] \<Longrightarrow> py_print st m = (None, st\<lparr>st_tty := [], printed := printed st @ [m]\<rparr>)"
  by (simp add: py_print_def)

lemma print_all_quiet:
  "st_tty st = [] \<Longrightarrow>
   fst (print_all ms st) = None
   \<and> st_fs (snd (print_all ms st)) = st_fs st
   \<and> copied_count (snd (print_all ms st)) = copied_count st
   \<and> failed_count (snd (print_all ms st)) = failed_count st"
proof (induction ms arbitrary: st)
  case Nil
  show ?case by simp
next
  case (Cons m ms)
  let ?st' = "st\<lparr>st_tty := [], printed := printed st @ [m]\<rparr>"
  have "st_tty ?st' = []" by simp
  from Cons.IH [OF this] Cons.prems show ?case by (simp add: py_print_quiet)
qed

lemma copy_successful_written:
  assumes nm: "new_name result = Some name" and ne: "name \<noteq> []"
    and src: "lookup (st_fs st) (original_path result) = Some (File content)"
    and dir: "is_dir (st_fs st) output_path"
    and io: "st_io st = []" and tty: "st_tty st = []"
  shows "fst (copy_successful output_path st result) = None"
    and "st_fs (snd (copy_successful output_path st result)) =
           put (st_fs st) (resolve_collision (st_fs st) output_path (output_path @ [name]))
             (File content)"
    and "st_io (snd (copy_successful output_path st result)) = []"
    and "st_tty (snd (copy_successful output_path st result)) = []"
    and "copied_count (snd (copy_successful output_path st result)) = copied_count st + 1"
    and "failed_count (snd (copy_successful output_path st result)) = failed_count st"
proof -
  let ?d = "resolve_collision (st_fs st) output_path (output_path @ [name])"
  have free: "\<not> exists (st_fs st) ?d" by (rule resolve_collision_free)
  then have nd: "\<not> is_dir (st_fs st) ?d" by (simp add: exists_def is_dir_def)
  from free src have neq: "?d \<noteq> original_path result" by (auto simp: exists_def)
  from resolve_collision_child [OF ne] obtain x where x: "?d = output_path @ [x]" by blast
  then have bl: "butlast ?d = output_path" by simp
  from dir have ex: "exists (st_fs st) output_path" by (simp add: exists_def is_dir_def)
  have c: "copy2 (st_fs st) IoOk (original_path result) ?d
             = (None, put (st_fs st) ?d (File content))"
    by (simp add: copy2_def src nd neq bl ex dir)
  show "fst (copy_successful output_path st result) = None"
    and "st_fs (snd (copy_successful output_path st result)) = put (st_fs st) ?d (File content)"
    and "st_io (snd (copy_successful output_path st result)) = []"
    and "st_tty (snd (copy_successful output_path st result)) = []"
    and "copied_count (snd (copy_successful output_path st result)) = copied_count st + 1"
    and "failed_count (snd (copy_successful output_path st result)) = failed_count st"
    by (simp_all add: copy_successful_def nm joinpath_def ne io tty c py_print_quiet Let_def)
qed

lemma copy_failed_written:
  assumes nm: "path_name (original_path result) = name" and ne: "name \<noteq> []"
    and src: "lookup (st_fs st) (original_path result) = Some (File content)"
    and dir: "is_dir (st_fs st) failed_path"
    and io: "st_io st = []" and tty: "st_tty st = []"
  shows "st_fs (copy_failed failed_path st result) =
           put (st_fs st) (resolve_collision (st_fs st) failed_path (failed_path @ [name]))
             (File content)"
    and "st_io (copy_failed failed_path st result) = []"
    and "st_tty (copy_failed failed_path st result) = []"
    and "copied_count (copy_failed failed_path st result) = copied_count st"
    and "failed_count (copy_failed failed_path st result) = failed_count st + 1"
proof -
  let ?d = "resolve_collision (st_fs st) failed_path (failed_path @ [name])"
  have free: "\<not> exists (st_fs st) ?d" by (rule resolve_collision_free)
  then have nd: "\<not> is_dir (st_fs st) ?d" by (simp add: exists_def is_dir_def)
  from free src have neq: "?d \<noteq> original_path result" by (auto simp: exists_def)
  from resolve_collision_child [OF ne] obtain x where x: "?d = failed_path @ [x]" by blast
  then have bl: "butlast ?d = failed_path" by simp
  from dir have ex: "exists (st_fs st) failed_path" by (simp add: exists_def is_dir_def)
  have c: "copy2 (st_fs st) IoOk (original_path result) ?d
             = (None, put (st_fs st) ?d (File content))"
    by (simp add: copy2_def src nd neq bl ex dir)
  show "st_fs (copy_failed failed_path st result) = put (st_fs st) ?d (File content)"
    and "st_io (copy_failed failed_path st result) = []"
    and "st_tty (copy_failed failed_path st result) = []"
    and "copied_count (copy_failed failed_path st result) = copied_count st"
    and "failed_count (copy_failed failed_path st result) = failed_count st + 1"
    by (simp_all add: copy_failed_def nm joinpath_def ne io tty c py_print_quiet Let_def)
qed

lemma three_successes:
  assumes dir: "is_dir (st_fs st) out"
    and f0: "\<not> exists (st_fs st) (out @ [u ''X.mp3''])"
    and f1: "\<not> exists (st_fs st) (out @ [u ''X (1).mp3''])"
    and f2: "\<not> exists (st_fs st) (out @ [u ''X (2).mp3''])"
    and n1: "new_name r1 = Some (u ''X.mp3'')"
    and n2: "new_name r2 = Some (u ''X.mp3'')"
    and n3: "new_name r3 = Some (u ''X.mp3'')"
    and s1: "lookup (st_fs st) (original_path r1) = Some (File c1)"
    and s2: "lookup (st_fs st) (original_path r2) = Some (File c2)"
    and s3: "lookup (st_fs st) (original_path r3) = Some (File c3)"
    and io: "st_io st = []" and tty: "st_tty st = []"
  obtains st3 where "copy_all_successful out st [r1, r2, r3] = (None, st3)"
    and "st_fs st3 = put (put (put (st_fs st) (out @ [u ''X.mp3'']) (File c1))
                         (out @ [u ''X (1).mp3'']) (File c2))
                    (out @ [u ''X (2).mp3'']) (File c3)"
    and "st_io st3 = []" and "st_tty st3 = []"
    and "copied_count st3 = copied_count st + 3"
    and "failed_count st3 = failed_count st"
proof -
  let ?p0 = "out @ [u ''X.mp3'']" and ?p1 = "out @ [u ''X (1).mp3'']"
    and ?p2 = "out @ [u ''X (2).mp3'']"
  have src_ne: "q \<noteq> [] \<and> q \<noteq> ?p0 \<and> q \<noteq> ?p1 \<and> q \<noteq> ?p2"
    if "lookup (st_fs st) q = Some (File c)" for q c
    using that f0 f1 f2 by (auto simp: exists_def lookup_root)
  note w1 = copy_successful_written [OF n1 X_distinct(4) s1 dir io tty]
  obtain st1 where c1: "copy_successful out st r1 = (None, st1)"
    using w1(1) by (cases "copy_successful out st r1") auto
  then have k1: "snd (copy_successful out st r1) = st1" by simp
  note v1 = w1 [unfolded k1]
  have fs1: "st_fs st1 = put (st_fs st) ?p0 (File c1)"
    using v1(2) f0 by (simp add: resolve_X0)
  have e10: "exists (st_fs st1) ?p0" by (simp add: fs1 exists_put)
  have e11: "\<not> exists (st_fs st1) ?p1" using f1 by (simp add: fs1 exists_put X_distinct)
  have a1: "lookup (st_fs st1) (original_path r2) = Some (File c2)"
    using s2 src_ne [OF s2] by (simp add: fs1 lookup_put)
  have d1: "is_dir (st_fs st1) out" using dir by (simp add: fs1 is_dir_put)
  note w2 = copy_successful_written [OF n2 X_distinct(4) a1 d1 v1(3) v1(4)]
  obtain st2 where c2: "copy_successful out st1 r2 = (None, st2)"
    using w2(1) by (cases "copy_successful out st1 r2") auto
  then have k2: "snd (copy_successful out st1 r2) = st2" by simp
  note v2 = w2 [unfolded k2]
  have fs2: "st_fs st2 = put (put (st_fs st) ?p0 (File c1)) ?p1 (File c2)"
    using v2(2) unfolding resolve_X1 [OF e10 e11] by (simp add: fs1)
  have e20: "exists (st_fs st2) ?p0" by (simp add: fs2 exists_put)
  have e21: "exists (st_fs st2) ?p1" by (simp add: fs2 exists_put)
  have e22: "\<not> exists (st_fs st2) ?p2" using f2 by (simp add: fs2 exists_put X_distinct)
  have a2: "lookup (st_fs st2) (original_path r3) = Some (File c3)"
    using s3 src_ne [OF s3] by (simp add: fs2 lookup_put)
  have d2: "is_dir (st_fs st2) out" using dir by (simp add: fs2 is_dir_put)
  note w3 = copy_successful_written [OF n3 X_distinct(4) a2 d2 v2(3) v2(4)]
  obtain st3 where c3: "copy_successful out st2 r3 = (None, st3)"
    using w3(1) by (cases "copy_successful out st2 r3") auto
  then have k3: "snd (copy_successful out st2 r3) = st3" by simp
  note v3 = w3 [unfolded k3]
  have fs3: "st_fs st3 = put (put (put (st_fs st) ?p0 (File c1)) ?p1 (File c2)) ?p2 (File c3)"
    using v3(2) unfolding resolve_X2 [OF e20 e21 e22] by (simp add: fs2)
  have "copy_all_successful out st [r1, r2, r3] = (None, st3)"
    by (simp add: c1 c2 c3)
  moreover have "copied_count st3 = copied_count st + 3"
    using v1(5) v2(5) v3(5) by simp
  moreover have "failed_count st3 = failed_count st"
    using v1(6) v2(6) v3(6) by simp
  ultimately show thesis using fs3 v3(3) v3(4) by (intro that [of st3])
qed

lemma two_failures:
  assumes dir: "is_dir (st_fs st) fp"
    and g0: "\<not> exists (st_fs st) (fp @ [u ''X.mp3''])"
    and g1: "\<not> exists (st_fs st) (fp @ [u ''X (1).mp3''])"
    and m1: "path_name (original_path f1) = u ''X.mp3''"
    and m2: "path_name (original_path f2) = u ''X.mp3''"
    and t1: "lookup (st_fs st) (original_path f1) = Some (File d1)"
    and t2: "lookup (st_fs st) (original_path f2) = Some (File d2)"
    and io: "st_io st = []" and tty: "st_tty st = []"
  shows "st_fs (copy_all_failed fp st [f1, f2]) =
           put (put (st_fs st) (fp @ [u ''X.mp3'']) (File d1)) (fp @ [u ''X (1).mp3'']) (File d2)"
    and "st_tty (copy_all_failed fp st [f1, f2]) = []"
    and "copied_count (copy_all_failed fp st [f1, f2]) = copied_count st"
    and "failed_count (copy_all_failed fp st [f1, f2]) = failed_count st + 2"
proof -
  let ?q0 = "fp @ [u ''X.mp3'']" and ?q1 = "fp @ [u ''X (1).mp3'']"
  have src_ne: "q \<noteq> [] \<and> q \<noteq> ?q0 \<and> q \<noteq> ?q1"
    if "lookup (st_fs st) q = Some (File c)" for q c
    using that g0 g1 by (auto simp: exists_def lookup_root)
  let ?st1 = "copy_failed fp st f1"
  note w1 = copy_failed_written [OF m1 X_distinct(4) t1 dir io tty]
  have fs1: "st_fs ?st1 = put (st_fs st) ?q0 (File d1)"
    using w1(1) g0 by (simp add: resolve_X0)
  have e10: "exists (st_fs ?st1) ?q0" by (simp add: fs1 exists_put)
  have e11: "\<not> exists (st_fs ?st1) ?q1" using g1 by (simp add: fs1 exists_put X_distinct)
  have a1: "lookup (st_fs ?st1) (original_path f2) = Some (File d2)"
    using t2 src_ne [OF t2] by (simp add: fs1 lookup_put)
  have dir1: "is_dir (st_fs ?st1) fp" using dir by (simp add: fs1 is_dir_put)
  let ?st2 = "copy_failed fp ?st1 f2"
  note w2 = copy_failed_written [OF m2 X_distinct(4) a1 dir1 w1(2) w1(3)]
  have fs2: "st_fs ?st2 = put (put (st_fs st) ?q0 (File d1)) ?q1 (File d2)"
    using w2(1) unfolding resolve_X1 [OF e10 e11] by (simp add: fs1)
  have run: "copy_all_failed fp st [f1, f2] = ?st2" by simp
  show "st_fs (copy_all_failed fp st [f1, f2]) =
           put (put (st_fs st) ?q0 (File d1)) ?q1 (File d2)"
    unfolding run by (rule fs2)
  show "st_tty (copy_all_failed fp st [f1, f2]) = []" unfolding run by (rule w2(3))
  show "copied_count (copy_all_failed fp st [f1, f2]) = copied_count st"
    unfolding run using w1(4) w2(4) by simp
  show "failed_count (copy_all_failed fp st [f1, f2]) = failed_count st + 2"
    unfolding run using w1(5) w2(5) by simp
qed

lemma both_trees:
  assumes dir: "is_dir fs out" and fdir: "is_dir fs (out @ [u ''_failed''])"
    and f0: "\<not> exists fs (out @ [u ''X.mp3''])"
    and f1: "\<not> exists fs (out @ [u ''X (1).mp3''])"
    and f2: "\<not> exists fs (out @ [u ''X (2).mp3''])"
    and g0: "\<not> exists fs (out @ [u ''_failed'', u ''X.mp3''])"
    and g1: "\<not> exists fs (out @ [u ''_failed'', u ''X (1).mp3''])"
    and n1: "new_name r1 = Some (u ''X.mp3'')"
    and n2: "new_name r2 = Some (u ''X.mp3'')"
    and n3: "new_name r3 = Some (u ''X.mp3'')"
    and s1: "lookup fs (original_path r1) = Some (File c1)"
    and s2: "lookup fs (original_path r2) = Some (File c2)"
    and s3: "lookup fs (original_path r3) = Some (File c3)"
    and m1: "path_name (original_path f1) = u ''X.mp3''"
    and m2: "path_name (original_path f2) = u ''X.mp3''"
    and t1: "lookup fs (original_path f1) = Some (File d1)"
    and t2: "lookup fs (original_path f2) = Some (File d2)"
  shows "fst (execute_copy_rename fs [] [] [r1, r2, r3] [f1, f2] out) = None
     \<and> lookup (st_fs (snd (execute_copy_rename fs [] [] [r1, r2, r3] [f1, f2] out)))
         (out @ [u ''X.mp3'']) = Some (File c1)
     \<and> lookup (st_fs (snd (execute_copy_rename fs [] [] [r1, r2, r3] [f1, f2] out)))
         (out @ [u ''X (1).mp3'']) = Some (File c2)
     \<and> lookup (st_fs (snd (execute_copy_rename fs [] [] [r1, r2, r3] [f1, f2] out)))
         (out @ [u ''X (2).mp3'']) = Some (File c3)
     \<and> lookup (st_fs (snd (execute_copy_rename fs [] [] [r1, r2, r3] [f1, f2] out)))
         (out @ [u ''_failed'', u ''X.mp3'']) = Some (File d1)
     \<and> lookup (st_fs (snd (execute_copy_rename fs [] [] [r1, r2, r3] [f1, f2] out)))
         (out @ [u ''_failed'', u ''X (1).mp3'']) = Some (File d2)
     \<and> copied_count (snd (execute_copy_rename fs [] [] [r1, r2, r3] [f1, f2] out)) = 3
     \<and> failed_count (snd (execute_copy_rename fs [] [] [r1, r2, r3] [f1, f2] out)) = 2"
proof -
  let ?fp = "out @ [u ''_failed'']"
  let ?p0 = "out @ [u ''X.mp3'']" and ?p1 = "out @ [u ''X (1).mp3'']"
    and ?p2 = "out @ [u ''X (2).mp3'']"
  let ?q0 = "out @ [u ''_failed'', u ''X.mp3'']"
    and ?q1 = "out @ [u ''_failed'', u ''X (1).mp3'']"
  have jp: "joinpath out (u ''_failed'') = ?fp" by (simp add: joinpath_def u_def)
  have ex: "exists fs out" "exists fs ?fp"
    using dir fdir by (simp_all add: exists_def is_dir_def)
  have src_ne: "q \<noteq> [] \<and> q \<noteq> ?p0 \<and> q \<noteq> ?p1 \<and> q \<noteq> ?p2 \<and> q \<noteq> ?q0 \<and> q \<noteq> ?q1"
    if "lookup fs q = Some (File c)" for q c
    using that f0 f1 f2 g0 g1 by (auto simp: exists_def lookup_root)
  have nf: "u ''_failed'' \<noteq> u ''X.mp3''" "u ''_failed'' \<noteq> u ''X (1).mp3''"
    "u ''_failed'' \<noteq> u ''X (2).mp3''"
    by (simp_all add: u_def)

  let ?st0 = "(initial_state fs [] [])\<lparr>st_tty := [],
                printed := printed (initial_state fs [] []) @ [Copying_header]\<rparr>"
  have h0: "st_fs ?st0 = fs" "st_io ?st0 = []" "st_tty ?st0 = []"
    "copied_count ?st0 = 0" "failed_count ?st0 = 0"
    by (simp_all add: initial_state_def)
  from three_successes [of ?st0 out r1 r2 r3 c1 c2 c3] dir f0 f1 f2 n1 n2 n3 s1 s2 s3 h0
  obtain st3 where loop: "copy_all_successful out ?st0 [r1, r2, r3] = (None, st3)"
    and fs3: "st_fs st3 = put (put (put fs ?p0 (File c1)) ?p1 (File c2)) ?p2 (File c3)"
    and io3: "st_io st3 = []" and tty3: "st_tty st3 = []"
    and k3: "copied_count st3 = 3" and l3: "failed_count st3 = 0"
    by auto

  let ?st3 = "st3\<lparr>st_tty := [], printed := printed st3 @ [Failed_header]\<rparr>"
  have fdir3: "is_dir (st_fs ?st3) ?fp"
    using fdir by (simp add: fs3 is_dir_put nf)
  have g03: "\<not> exists (st_fs ?st3) (?fp @ [u ''X.mp3''])"
    using g0 by (simp add: fs3 exists_put)
  have g13: "\<not> exists (st_fs ?st3) (?fp @ [u ''X (1).mp3''])"
    using g1 by (simp add: fs3 exists_put)
  have t13: "lookup (st_fs ?st3) (original_path f1) = Some (File d1)"
    using t1 src_ne [OF t1] by (simp add: fs3 lookup_put)
  have t23: "lookup (st_fs ?st3) (original_path f2) = Some (File d2)"
    using t2 src_ne [OF t2] by (simp add: fs3 lookup_put)
  have io3': "st_io ?st3 = []" and tty3': "st_tty ?st3 = []" using io3 by simp_all
  note w = two_failures [OF fdir3 g03 g13 m1 m2 t13 t23 io3' tty3']
  let ?st5 = "copy_all_failed ?fp ?st3 [f1, f2]"
  have fs5: "st_fs ?st5 = put (put (put (put (put fs ?p0 (File c1)) ?p1 (File c2)) ?p2 (File c3))
                               ?q0 (File d1)) ?q1 (File d2)"
    using w(1) by (simp add: fs3)
  have k5: "copied_count ?st5 = 3" using w(3) k3 by simp
  have l5: "failed_count ?st5 = 2" using w(4) l3 by simp

  have i0: "st_fs (initial_state fs [] []) = fs" "st_tty (initial_state fs [] []) = []"
    by (simp_all add: initial_state_def)
  have a: "create_missing out m (initial_state fs [] []) = (None, initial_state fs [] [])"
    "create_missing ?fp m (initial_state fs [] []) = (None, initial_state fs [] [])" for m
    using ex by (simp_all add: create_missing_def i0)
  have b: "py_print (initial_state fs [] []) Copying_header = (None, ?st0)"
    by (rule py_print_quiet) (rule i0(2))
  have c: "py_print st3 Failed_header = (None, ?st3)"
    by (rule py_print_quiet) (rule tty3)
  have run: "execute_copy_rename fs [] [] [r1, r2, r3] [f1, f2] out
               = print_all (summary ?st5) ?st5"
    by (simp only: execute_copy_rename_def Let_def jp a and_then.simps b loop c
        list.distinct if_True not_False_eq_True)
  note fin = print_all_quiet [OF w(2), of "summary ?st5"]
  have look: "lookup (st_fs ?st5) ?p0 = Some (File c1)"
    "lookup (st_fs ?st5) ?p1 = Some (File c2)"
    "lookup (st_fs ?st5) ?p2 = Some (File c3)"
    "lookup (st_fs ?st5) ?q0 = Some (File d1)"
    "lookup (st_fs ?st5) ?q1 = Some (File d2)"
    unfolding fs5 by (simp_all add: lookup_put X_distinct X_distinct [symmetric] nf nf [symmetric])
  from fin look k5 l5 show ?thesis unfolding run by simp
qed

text \<open>
  C6.  The destination of a copy is the first name that does not exist in the sequence
  made of the wanted name and of the names with the counters 1, 2, ... in parentheses
  between the stem and the suffix of the wanted name.  The two trees are numbered
  independently.  When three successes generate \<open>X.mp3\<close> and two failed files are named
  \<open>X.mp3\<close>, the output root and its failed directory exist and hold none of the names, and
  every copy and every print goes through, then the successes are written in their order
  as \<open>X.mp3\<close>, \<open>X (1).mp3\<close> and \<open>X (2).mp3\<close> in the output root, and the failures in their
  order as \<open>X.mp3\<close> and \<open>X (1).mp3\<close> in the failed directory.
\<close>

theorem collision_numbering:
  "(\<exists>k. resolve_collision fs dir dest_path = candidate dir dest_path k
        \<and> \<not> exists fs (candidate dir dest_path k)
        \<and> (\<forall>j<k. exists fs (candidate dir dest_path j)))
   \<and> (is_dir fs' out \<and> is_dir fs' (out @ [u ''_failed''])
        \<and> \<not> exists fs' (out @ [u ''X.mp3''])
        \<and> \<not> exists fs' (out @ [u ''X (1).mp3''])
        \<and> \<not> exists fs' (out @ [u ''X (2).mp3''])
        \<and> \<not> exists fs' (out @ [u ''_failed'', u ''X.mp3''])
        \<and> \<not> exists fs' (out @ [u ''_failed'', u ''X (1).mp3''])
        \<and> new_name r1 = Some (u ''X.mp3'')
        \<and> new_name r2 = Some (u ''X.mp3'')
        \<and> new_name r3 = Some (u ''X.mp3'')
        \<and> lookup fs' (original_path r1) = Some (File c1)
        \<and> lookup fs' (original_path r2) = Some (File c2)
        \<and> lookup fs' (original_path r3) = Some (File c3)
        \<and> path_name (original_path f1) = u ''X.mp3''
        \<and> path_name (original_path f2) = u ''X.mp3''
        \<and> lookup fs' (original_path f1) = Some (File d1)
        \<and> lookup fs' (original_path f2) = Some (File d2)
      \<longrightarrow>
        fst (execute_copy_rename fs' [] [] [r1, r2, r3] [f1, f2] out) = None
        \<and> lookup (st_fs (snd (execute_copy_rename fs' [] [] [r1, r2, r3] [f1, f2] out)))
             (out @ [u ''X.mp3'']) = Some (File c1)
        \<and> lookup (st_fs (snd (execute_copy_rename fs' [] [] [r1, r2, r3] [f1, f2] out)))
             (out @ [u ''X (1).mp3'']) = Some (File c2)
        \<and> lookup (st_fs (snd (execute_copy_rename fs' [] [] [r1, r2, r3] [f1, f2] out)))
             (out @ [u ''X (2).mp3'']) = Some (File c3)
        \<and> lookup (st_fs (snd (execute_copy_rename fs' [] [] [r1, r2, r3] [f1, f2] out)))
             (out @ [u ''_failed'', u ''X.mp3'']) = Some (File d1)
        \<and> lookup (st_fs (snd (execute_copy_rename fs' [] [] [r1, r2, r3] [f1, f2] out)))
             (out @ [u ''_failed'', u ''X (1).mp3'']) = Some (File d2)
        \<and> copied_count (snd (execute_copy_rename fs' [] [] [r1, r2, r3] [f1, f2] out)) = 3
        \<and> failed_count (snd (execute_copy_rename fs' [] [] [r1, r2, r3] [f1, f2] out)) = 2)"
proof (rule conjI)
  show "\<exists>k. resolve_collision fs dir dest_path = candidate dir dest_path k
        \<and> \<not> exists fs (candidate dir dest_path k)
        \<and> (\<forall>j<k. exists fs (candidate dir dest_path j))"
    by (rule resolve_collision_first_free)
next
  show "is_dir fs' out \<and> is_dir fs' (out @ [u ''_failed''])
        \<and> \<not> exists fs' (out @ [u ''X.mp3''])
        \<and> \<not> exists fs' (out @ [u ''X (1).mp3''])
        \<and> \<not> exists fs' (out @ [u ''X (2).mp3''])
        \<and> \<not> exists fs' (out @ [u ''_failed'', u ''X.mp3''])
        \<and> \<not> exists fs' (out @ [u ''_failed'', u ''X (1).mp3''])
        \<and> new_name r1 = Some (u ''X.mp3'')
        \<and> new_name r2 = Some (u ''X.mp3'')
        \<and> new_name r3 = Some (u ''X.mp3'')
        \<and> lookup fs' (original_path r1) = Some (File c1)
        \<and> lookup fs' (original_path r2) = Some (File c2)
        \<and> lookup fs' (original_path r3) = Some (File c3)
        \<and> path_name (original_path f1) = u ''X.mp3''
        \<and> path_name (original_path f2) = u ''X.mp3''
        \<and> lookup fs' (original_path f1) = Some (File d1)
        \<and> lookup fs' (original_path f2) = Some (File d2)
      \<longrightarrow>
        fst (execute_copy_rename fs' [] [] [r1, r2, r3] [f1, f2] out) = None
        \<and> lookup (st_fs (snd (execute_copy_rename fs' [] [] [r1, r2, r3] [f1, f2] out)))
             (out @ [u ''X.mp3'']) = Some (File c1)
        \<and> lookup (st_fs (snd (execute_copy_rename fs' [] [] [r1, r2, r3] [f1, f2] out)))
             (out @ [u ''X (1).mp3'']) = Some (File c2)
        \<and> lookup (st_fs (snd (execute_copy_rename fs' [] [] [r1, r2, r3] [f1, f2] out)))
             (out @ [u ''X (2).mp3'']) = Some (File c3)
        \<and> lookup (st_fs (snd (execute_copy_rename fs' [] [] [r1, r2, r3] [f1, f2] out)))
             (out @ [u ''_failed'', u ''X.mp3'']) = Some (File d1)
        \<and> lookup (st_fs (snd (execute_copy_rename fs' [] [] [r1, r2, r3] [f1, f2] out)))
             (out @ [u ''_failed'', u ''X (1).mp3'']) = Some (File d2)
        \<and> copied_count (snd (execute_copy_rename fs' [] [] [r1, r2, r3] [f1, f2] out)) = 3
        \<and> failed_count (snd (execute_copy_rename fs' [] [] [r1, r2, r3] [f1, f2] out)) = 2"
  proof
    assume a: "is_dir fs' out \<and> is_dir fs' (out @ [u ''_failed''])
        \<and> \<not> exists fs' (out @ [u ''X.mp3''])
        \<and> \<not> exists fs' (out @ [u ''X (1).mp3''])
        \<and> \<not> exists fs' (out @ [u ''X (2).mp3''])
        \<and> \<not> exists fs' (out @ [u ''_failed'', u ''X.mp3''])
        \<and> \<not> exists fs' (out @ [u ''_failed'', u ''X (1).mp3''])
        \<and> new_name r1 = Some (u ''X.mp3'')
        \<and> new_name r2 = Some (u ''X.mp3'')
        \<and> new_name r3 = Some (u ''X.mp3'')
        \<and> lookup fs' (original_path r1) = Some (File c1)
        \<and> lookup fs' (original_path r2) = Some (File c2)
        \<and> lookup fs' (original_path r3) = Some (File c3)
        \<and> path_name (original_path f1) = u ''X.mp3''
        \<and> path_name (original_path f2) = u ''X.mp3''
        \<and> lookup fs' (original_path f1) = Some (File d1)
        \<and> lookup fs' (original_path f2) = Some (File d2)"
    show "fst (execute_copy_rename fs' [] [] [r1, r2, r3] [f1, f2] out) = None
        \<and> lookup (st_fs (snd (execute_copy_rename fs' [] [] [r1, r2, r3] [f1, f2] out)))
             (out @ [u ''X.mp3'']) = Some (File c1)
        \<and> lookup (st_fs (snd (execute_copy_rename fs' [] [] [r1, r2, r3] [f1, f2] out)))
             (out @ [u ''X (1).mp3'']) = Some (File c2)
        \<and> lookup (st_fs (snd (execute_copy_rename fs' [] [] [r1, r2, r3] [f1, f2] out)))
             (out @ [u ''X (2).mp3'']) = Some (File c3)
        \<and> lookup (st_fs (snd (execute_copy_rename fs' [] [] [r1, r2, r3] [f1, f2] out)))
             (out @ [u ''_failed'', u ''X.mp3'']) = Some (File d1)
        \<and> lookup (st_fs (snd (execute_copy_rename fs' [] [] [r1, r2, r3] [f1, f2] out)))
             (out @ [u ''_failed'', u ''X (1).mp3'']) = Some (File d2)
        \<and> copied_count (snd (execute_copy_rename fs' [] [] [r1, r2, r3] [f1, f2] out)) = 3
        \<and> failed_count (snd (execute_copy_rename fs' [] [] [r1, r2, r3] [f1, f2] out)) = 2"
      by (rule both_trees) (use a in simp_all)
  qed
qed

theorem collision_numbering_witness:
  "resolve_collision occupied_fs [u ''music''] [u ''music'', u ''X.mp3'']
     = [u ''music'', u ''X (2).mp3'']
   \<and> lookup (st_fs (snd (execute_copy_rename library_fs [] []
          [renamed (u ''a.mp3''), renamed (u ''b.mp3''), renamed (u ''c.mp3'')]
          [unreadable (u ''one''), unreadable (u ''two'')] [u ''out''])))
        [u ''out'', u ''X.mp3''] = Some (File [1])
   \<and> lookup (st_fs (snd (execute_copy_rename library_fs [] []
          [renamed (u ''a.mp3''), renamed (u ''b.mp3''), renamed (u ''c.mp3'')]
          [unreadable (u ''one''), unreadable (u ''two'')] [u ''out''])))
        [u ''out'', u ''X (1).mp3''] = Some (File [2])
   \<and> lookup (st_fs (snd (execute_copy_rename library_fs [] []
          [renamed (u ''a.mp3''), renamed (u ''b.mp3''), renamed (u ''c.mp3'')]
          [unreadable (u ''one''), unreadable (u ''two'')] [u ''out''])))
        [u ''out'', u ''X (2).mp3''] = Some (File [3])
   \<and> lookup (st_fs (snd (execute_copy_rename library_fs [] []
          [renamed (u ''a.mp3''), renamed (u ''b.mp3''), renamed (u ''c.mp3'')]
          [unreadable (u ''one''), unreadable (u ''two'')] [u ''out''])))
        [u ''out'', u ''_failed'', u ''X.mp3''] = Some (File [4])
   \<and> lookup (st_fs (snd (execute_copy_rename library_fs [] []
          [renamed (u ''a.mp3''), renamed (u ''b.mp3''), renamed (u ''c.mp3'')]
          [unreadable (u ''one''), unreadable (u ''two'')] [u ''out''])))
        [u ''out'', u ''_failed'', u ''X (1).mp3''] = Some (File [5])"
proof -
  note inst = collision_numbering [of occupied_fs "[u ''music'']" "[u ''music'', u ''X.mp3'']"
      library_fs "[u ''out'']"
      "renamed (u ''a.mp3'')" "renamed (u ''b.mp3'')" "renamed (u ''c.mp3'')" "[1]" "[2]" "[3]"
      "unreadable (u ''one'')" "unreadable (u ''two'')" "[4]" "[5]"]
  from inst obtain k where
    r: "resolve_collision occupied_fs [u ''music''] [u ''music'', u ''X.mp3'']
          = candidate [u ''music''] [u ''music'', u ''X.mp3''] k"
    and f: "\<not> exists occupied_fs (candidate [u ''music''] [u ''music'', u ''X.mp3''] k)"
    and b: "\<forall>j<k. exists occupied_fs (candidate [u ''music''] [u ''music'', u ''X.mp3''] j)"
    by blast
  have "k \<noteq> 0"
  proof
    assume "k = 0"
    with f occupied_candidates(1) show False by simp
  qed
  moreover have "k \<noteq> 1"
  proof
    assume "k = 1"
    with f occupied_candidates(2) show False by simp
  qed
  moreover have "\<not> 2 < k"
  proof
    assume "2 < k"
    with b have "exists occupied_fs (candidate [u ''music''] [u ''music'', u ''X.mp3''] 2)"
      by blast
    with occupied_candidates(3) show False by simp
  qed
  ultimately have "k = 2" by arith
  with r have part1: "resolve_collision occupied_fs [u ''music''] [u ''music'', u ''X.mp3'']
     = [u ''music'', u ''X (2).mp3'']"
    by (simp add: occupied_candidates(4))
  have h: "is_dir library_fs [u ''out''] \<and> is_dir library_fs ([u ''out''] @ [u ''_failed''])
        \<and> \<not> exists library_fs ([u ''out''] @ [u ''X.mp3''])
        \<and> \<not> exists library_fs ([u ''out''] @ [u ''X (1).mp3''])
        \<and> \<not> exists library_fs ([u ''out''] @ [u ''X (2).mp3''])
        \<and> \<not> exists library_fs ([u ''out''] @ [u ''_failed'', u ''X.mp3''])
        \<and> \<not> exists library_fs ([u ''out''] @ [u ''_failed'', u ''X (1).mp3''])
        \<and> new_name (renamed (u ''a.mp3'')) = Some (u ''X.mp3'')
        \<and> new_name (renamed (u ''b.mp3'')) = Some (u ''X.mp3'')
        \<and> new_name (renamed (u ''c.mp3'')) = Some (u ''X.mp3'')
        \<and> lookup library_fs (original_path (renamed (u ''a.mp3''))) = Some (File [1])
        \<and> lookup library_fs (original_path (renamed (u ''b.mp3''))) = Some (File [2])
        \<and> lookup library_fs (original_path (renamed (u ''c.mp3''))) = Some (File [3])
        \<and> path_name (original_path (unreadable (u ''one''))) = u ''X.mp3''
        \<and> path_name (original_path (unreadable (u ''two''))) = u ''X.mp3''
        \<and> lookup library_fs (original_path (unreadable (u ''one''))) = Some (File [4])
        \<and> lookup library_fs (original_path (unreadable (u ''two''))) = Some (File [5])"
    by (simp add: library_fs_def renamed_def unreadable_def failed_result_def exists_def
        is_dir_def lookup_def path_name_def u_def)
  from inst h have
    "lookup (st_fs (snd (execute_copy_rename library_fs [] []
          [renamed (u ''a.mp3''), renamed (u ''b.mp3''), renamed (u ''c.mp3'')]
          [unreadable (u ''one''), unreadable (u ''two'')] [u ''out''])))
        ([u ''out''] @ [u ''X.mp3'']) = Some (File [1])
   \<and> lookup (st_fs (snd (execute_copy_rename library_fs [] []
          [renamed (u ''a.mp3''), renamed (u ''b.mp3''), renamed (u ''c.mp3'')]
          [unreadable (u ''one''), unreadable (u ''two'')] [u ''out''])))
        ([u ''out''] @ [u ''X (1).mp3'']) = Some (File [2])
   \<and> lookup (st_fs (snd (execute_copy_rename library_fs [] []
          [renamed (u ''a.mp3''), renamed (u ''b.mp3''), renamed (u ''c.mp3'')]
          [unreadable (u ''one''), unreadable (u ''two'')] [u ''out''])))
        ([u ''out''] @ [u ''X (2).mp3'']) = Some (File [3])
   \<and> lookup (st_fs (snd (execute_copy_rename library_fs [] []
          [renamed (u ''a.mp3''), renamed (u ''b.mp3''), renamed (u ''c.mp3'')]
          [unreadable (u ''one''), unreadable (u ''two'')] [u ''out''])))
        ([u ''out''] @ [u ''_failed'', u ''X.mp3'']) = Some (File [4])
   \<and> lookup (st_fs (snd (execute_copy_rename library_fs [] []
          [renamed (u ''a.mp3''), renamed (u ''b.mp3''), renamed (u ''c.mp3'')]
          [unreadable (u ''one''), unreadable (u ''two'')] [u ''out''])))
        ([u ''out''] @ [u ''_failed'', u ''X (1).mp3'']) = Some (File [5])"
    by blast
  with part1 show ?thesis by simp
qed

end
